theory Spec2Isabelle
  imports Complex_Main "HOL-Library.Sublist"
begin

section \<open>LiteMem: the memory-state engine\<close>

text \<open>
  A shallow embedding of the TypeScript sources \<^verbatim>\<open>liteMem.ts\<close> (class \<open>LiteMemory\<close>),
  \<^verbatim>\<open>storage/vector-store.ts\<close> (class \<open>VectorStore\<close>), \<^verbatim>\<open>utils/normalizer.ts\<close>
  (\<open>parseSessionTimestamp\<close>, class \<open>MessageNormalizer\<close>, \<open>assignSequenceNumbers\<close>),
  \<^verbatim>\<open>embeddings/openrouter.ts\<close> (class \<open>OpenRouterEmbedder\<close>) and \<^verbatim>\<open>llm/openrouter.ts\<close>
  (\<open>callUpdateLlm\<close>).

  Conventions of the embedding.
  \<^item> A JavaScript \<open>number\<close> that stands for a measurement (a score, a vector component, a
    numeric timestamp) is a \<open>real\<close>: the arithmetic is exact, and \<open>NaN\<close> and the infinities
    do not occur.
    A number that counts or indexes (a limit, a sequence number) is an \<open>int\<close>.
  \<^item> An instant is an \<open>int\<close>, the milliseconds since the epoch. An ISO-8601 string made by
    \<open>Date.toISOString\<close> is represented by the instant it denotes, which is what
    \<open>new Date(iso).getTime()\<close> gives back.
  \<^item> A \<open>Date\<close> object is an \<open>int option\<close>: \<open>None\<close> is the Invalid Date, whose time value is
    \<open>NaN\<close>.
  \<^item> A method that mutates its object takes the object's state and returns the new one;
    a \<open>throw\<close> (a rejected promise of an \<open>async\<close> method) is an \<open>Inl\<close> result, returned
    together with the state reached at the throw.
  \<^item> Logging is left out.
\<close>

subsection \<open>Errors\<close>

datatype error =
    VectorLengthMismatch      \<comment> \<open>\<open>Error('Vectors must have the same length')\<close>\<close>
  | MissingTimeStamp          \<comment> \<open>\<open>Error("Each message should contain a 'timeStamp' field")\<close>\<close>
  | SessionTimeFormat string  \<comment> \<open>\<open>Error("Failed to parse session time format: ...")\<close>\<close>
  | RangeError                \<comment> \<open>\<open>toISOString\<close> of an Invalid Date\<close>
  | TypeError                 \<comment> \<open>a property read on \<open>undefined\<close> or \<open>null\<close>\<close>
  | UpstreamError             \<comment> \<open>the embedding or chat endpoint failed\<close>
  | StoreFailure              \<comment> \<open>the database driver refused a statement\<close>

type_synonym 'a outcome = "error + 'a"

subsection \<open>The data model: \<^verbatim>\<open>types/memory.ts\<close>\<close>

record UpdateCandidate =
  cand_id :: string
  cand_score :: real

text \<open>
  \<open>MemoryEntry & { embedding?: number[] }\<close>, which is also a row of the table \<open>memories\<close>
  (\<open>id\<close> is its primary key). The field \<open>id\<close> is called \<open>entry_id\<close> here.
\<close>

record MemoryEntry =
  entry_id :: string
  timeStamp :: int
  floatTimeStamp :: real
  weekday :: string
  category :: string
  subcategory :: string
  memoryClass :: string
  memory :: string
  originalMemory :: string
  compressedMemory :: string
  topicId :: "int option"
  topicSummary :: string
  speakerId :: string
  speakerName :: string
  hitTime :: int
  updateQueue :: "UpdateCandidate list"
  embedding :: "real list option"

text \<open>\<open>Partial<MemoryEntry>\<close>: every field may be absent.\<close>

record MemoryEntryPatch =
  p_id :: "string option"
  p_timeStamp :: "int option"
  p_floatTimeStamp :: "real option"
  p_weekday :: "string option"
  p_category :: "string option"
  p_subcategory :: "string option"
  p_memoryClass :: "string option"
  p_memory :: "string option"
  p_originalMemory :: "string option"
  p_compressedMemory :: "string option"
  p_topicId :: "int option option"
  p_topicSummary :: "string option"
  p_speakerId :: "string option"
  p_speakerName :: "string option"
  p_hitTime :: "int option"
  p_updateQueue :: "UpdateCandidate list option"

definition no_patch :: MemoryEntryPatch where
  "no_patch = \<lparr> p_id = None, p_timeStamp = None, p_floatTimeStamp = None, p_weekday = None,
     p_category = None, p_subcategory = None, p_memoryClass = None, p_memory = None,
     p_originalMemory = None, p_compressedMemory = None, p_topicId = None,
     p_topicSummary = None, p_speakerId = None, p_speakerName = None, p_hitTime = None,
     p_updateQueue = None \<rparr>"

subsection \<open>Retrieval filters: \<^verbatim>\<open>types/messages.ts\<close>\<close>

record TimeRange =
  gte :: "real option"
  lte :: "real option"

record RetrieveFilters =
  f_floatTimeStamp :: "TimeRange option"
  f_speakerId :: "string option"
  f_category :: "string option"

text \<open>JavaScript truthiness of an optional number and of an optional string.\<close>

definition truthy_num :: "real option \<Rightarrow> bool" where
  "truthy_num v = (case v of None \<Rightarrow> False | Some x \<Rightarrow> x \<noteq> 0)"

definition truthy_str :: "string option \<Rightarrow> bool" where
  "truthy_str v = (case v of None \<Rightarrow> False | Some s \<Rightarrow> s \<noteq> [])"

subsection \<open>The vector store: \<^verbatim>\<open>storage/vector-store.ts\<close>\<close>

text \<open>
  The table is the list of its rows in scan order. \<open>INSERT OR REPLACE\<close> removes the row
  with the same primary key and appends the new one.
\<close>

type_synonym store = "MemoryEntry list"

definition insert_entry :: "MemoryEntry \<Rightarrow> real list \<Rightarrow> store \<Rightarrow> store" where
  "insert_entry entry emb st =
     filter (\<lambda>r. entry_id r \<noteq> entry_id entry) st @ [entry\<lparr>embedding := Some emb\<rparr>]"

text \<open>
  A row is kept as the \<open>MemoryEntry\<close> that \<open>insert\<close> wrote, so the defaults that
  \<open>rowToMemoryEntry\<close> puts in for \<open>NULL\<close> columns do not arise, and the queue is the
  list that its JSON text denotes. The column \<open>embedding\<close> of a row holds the numbers
  given to \<open>embeddingToBlob\<close>; their rounding to 32 bits is left out, since no number is
  read back from the column (see \<open>blobToEmbedding\<close>).

  A blob is a \<open>Uint8Array\<close>, as \<open>embeddingToBlob\<close> makes it, or an \<open>ArrayBuffer\<close>, as the
  client (\<^verbatim>\<open>@libsql/client\<close>) hands back the value of a \<open>BLOB\<close> column. \<open>blobToEmbedding\<close>
  reads \<open>blob.buffer\<close>, \<open>blob.byteOffset\<close> and \<open>blob.byteLength\<close>. An \<open>ArrayBuffer\<close> has no
  \<open>buffer\<close> and no \<open>byteOffset\<close>, and \<open>new Float32Array(undefined, undefined, n)\<close> is the
  empty array, whatever \<open>n\<close> is; on a \<open>Uint8Array\<close> the result is the numbers of the blob.
\<close>

datatype blob = ArrayBuffer "real list" | Uint8Array "real list"

definition blobToEmbedding :: "blob \<Rightarrow> real list" where
  "blobToEmbedding b = (case b of ArrayBuffer floats \<Rightarrow> [] | Uint8Array floats \<Rightarrow> floats)"

text \<open>
  \<open>rowToMemoryEntry\<close>: the embedding is left out unless it is asked for and the column is
  not \<open>NULL\<close>; \<open>row.embedding\<close> is then the \<open>ArrayBuffer\<close> of the column, so that the
  embedding of the entry is \<open>[]\<close>.
\<close>

definition rowToMemoryEntry :: "MemoryEntry \<Rightarrow> bool \<Rightarrow> MemoryEntry" where
  "rowToMemoryEntry row includeEmbedding =
     (case embedding row of
        None \<Rightarrow> row\<lparr>embedding := None\<rparr>
      | Some floats \<Rightarrow>
          if includeEmbedding
          then row\<lparr>embedding := Some (blobToEmbedding (ArrayBuffer floats))\<rparr>
          else row\<lparr>embedding := None\<rparr>)"

definition getAll :: "bool \<Rightarrow> store \<Rightarrow> MemoryEntry list" where
  "getAll includeEmbeddings st = map (\<lambda>row. rowToMemoryEntry row includeEmbeddings) st"

definition get :: "string \<Rightarrow> store \<Rightarrow> MemoryEntry option" where
  "get i st = (case filter (\<lambda>r. entry_id r = i) st of
                 [] \<Rightarrow> None | row # _ \<Rightarrow> Some (rowToMemoryEntry row True))"

definition exists_entry :: "string \<Rightarrow> store \<Rightarrow> bool" where
  "exists_entry i st = (filter (\<lambda>r. entry_id r = i) st \<noteq> [])"

definition count :: "store \<Rightarrow> nat" where
  "count st = length st"

definition delete :: "string \<Rightarrow> store \<Rightarrow> store" where
  "delete i st = filter (\<lambda>r. entry_id r \<noteq> i) st"

text \<open>
  \<open>update\<close> builds one \<open>SET\<close> clause for each of \<open>memory\<close>, \<open>category\<close>, \<open>subcategory\<close>,
  \<open>hitTime\<close> and \<open>updateQueue\<close> that is not \<open>undefined\<close> in the patch, and one for the
  embedding if it is given; the other fields of the patch are not read.
\<close>

definition setClauses :: "MemoryEntryPatch \<Rightarrow> real list option \<Rightarrow> MemoryEntry \<Rightarrow> MemoryEntry" where
  "setClauses updates emb row =
     row\<lparr> memory := (case p_memory updates of Some v \<Rightarrow> v | None \<Rightarrow> memory row),
          category := (case p_category updates of Some v \<Rightarrow> v | None \<Rightarrow> category row),
          subcategory := (case p_subcategory updates of Some v \<Rightarrow> v | None \<Rightarrow> subcategory row),
          hitTime := (case p_hitTime updates of Some v \<Rightarrow> v | None \<Rightarrow> hitTime row),
          updateQueue := (case p_updateQueue updates of Some v \<Rightarrow> v | None \<Rightarrow> updateQueue row),
          embedding := (case emb of Some v \<Rightarrow> Some v | None \<Rightarrow> embedding row) \<rparr>"

definition update :: "string \<Rightarrow> MemoryEntryPatch \<Rightarrow> real list option \<Rightarrow> store \<Rightarrow> store" where
  "update i updates emb st =
     (if p_memory updates = None \<and> p_category updates = None \<and> p_subcategory updates = None
         \<and> p_hitTime updates = None \<and> p_updateQueue updates = None \<and> emb = None
      then st
      else map (\<lambda>row. if entry_id row = i then setClauses updates emb row else row) st)"

text \<open>The loop of \<open>cosineSimilarity\<close>: the three running sums over the common indices.\<close>

fun cosine_sums :: "real list \<Rightarrow> real list \<Rightarrow> real \<times> real \<times> real \<Rightarrow> real \<times> real \<times> real" where
  "cosine_sums (x # xs) (y # ys) (dotProduct, normA, normB) =
     cosine_sums xs ys (dotProduct + x * y, normA + x * x, normB + y * y)"
| "cosine_sums _ _ acc = acc"

definition cosineSimilarity :: "real list \<Rightarrow> real list \<Rightarrow> real outcome" where
  "cosineSimilarity a b =
     (if length a \<noteq> length b then Inl VectorLengthMismatch
      else (case cosine_sums a b (0, 0, 0) of (dotProduct, normA, normB) \<Rightarrow>
              let magnitude = sqrt normA * sqrt normB
              in if magnitude = 0 then Inr 0 else Inr (dotProduct / magnitude)))"

record SearchResult =
  sr_id :: string
  score :: real
  payload :: MemoryEntry

text \<open>
  The filter tests of \<open>search\<close>, one per \<open>continue\<close>. Each bound is guarded by its own
  truthiness, as in \<open>filters.floatTimeStamp?.gte && entry.floatTimeStamp < ...\<close>.
\<close>

definition filtered_out :: "RetrieveFilters option \<Rightarrow> MemoryEntry \<Rightarrow> bool" where
  "filtered_out filters entry =
     (case filters of None \<Rightarrow> False
      | Some f \<Rightarrow>
          (case f_floatTimeStamp f of None \<Rightarrow> False
           | Some r \<Rightarrow> truthy_num (gte r) \<and> floatTimeStamp entry < the (gte r))
        \<or> (case f_floatTimeStamp f of None \<Rightarrow> False
           | Some r \<Rightarrow> truthy_num (lte r) \<and> floatTimeStamp entry > the (lte r))
        \<or> (truthy_str (f_speakerId f) \<and> speakerId entry \<noteq> the (f_speakerId f))
        \<or> (truthy_str (f_category f) \<and> category entry \<noteq> the (f_category f)))"

fun score_entries ::
  "real list \<Rightarrow> RetrieveFilters option \<Rightarrow> MemoryEntry list \<Rightarrow> SearchResult list outcome" where
  "score_entries q filters [] = Inr []"
| "score_entries q filters (entry # rest) =
     (case embedding entry of
        None \<Rightarrow> score_entries q filters rest
      | Some emb \<Rightarrow>
          if filtered_out filters entry then score_entries q filters rest
          else (case cosineSimilarity q emb of
                  Inl e \<Rightarrow> Inl e
                | Inr s \<Rightarrow>
                    (case score_entries q filters rest of
                       Inl e \<Rightarrow> Inl e
                     | Inr scored \<Rightarrow>
                         Inr (\<lparr> sr_id = entry_id entry, score = s, payload = entry \<rparr> # scored))))"

text \<open>
  \<open>scored.sort((a, b) => b.score - a.score)\<close>: a stable sort, descending by score.
  \<open>slice(0, limit)\<close>: a negative end counts from the end of the array.
\<close>

definition sort_desc :: "SearchResult list \<Rightarrow> SearchResult list" where
  "sort_desc scored = sort_key (\<lambda>h. - score h) scored"

definition slice0 :: "'a list \<Rightarrow> int \<Rightarrow> 'a list" where
  "slice0 xs n = (if n < 0 then take (nat (int (length xs) + n)) xs else take (nat n) xs)"

definition search ::
  "real list \<Rightarrow> int \<Rightarrow> RetrieveFilters option \<Rightarrow> store \<Rightarrow> SearchResult list outcome" where
  "search queryEmbedding limit filters st =
     (case score_entries queryEmbedding filters (getAll True st) of
        Inl e \<Rightarrow> Inl e
      | Inr scored \<Rightarrow> Inr (slice0 (sort_desc scored) limit))"

subsection \<open>The runtime and the outside world\<close>

text \<open>A value produced by \<open>JSON.parse\<close>; an object is the list of its own properties.\<close>

datatype json =
    JNull
  | JBool bool
  | JNum real
  | JStr string
  | JArr "json list"
  | JObj "(string \<times> json) list"

record UsageInfo =
  promptTokens :: nat
  completionTokens :: nat
  totalTokens :: nat

datatype MessageRole = User | Assistant | System

datatype MessagesUse = user_only | assistant_only | hybrid

text \<open>
  \<open>Message\<close>: \<open>timeStamp\<close> is the session marker, \<open>None\<close> where the field is missing.
\<close>

record Message =
  role :: MessageRole
  content :: string
  m_timeStamp :: "string option"
  m_speakerId :: "string option"
  m_speakerName :: "string option"

text \<open>
  \<open>NormalizedMessage\<close>: the message with \<open>sessionTime\<close> (the marker), \<open>timeStamp\<close> (now the
  assigned instant), \<open>weekday\<close> and, once assigned, \<open>sequenceNumber\<close>.
\<close>

record NormalizedMessage =
  n_role :: MessageRole
  n_content :: string
  n_timeStamp :: int
  n_speakerId :: "string option"
  n_speakerName :: "string option"
  sessionTime :: string
  n_weekday :: string
  sequenceNumber :: "int option"

record ExtractedFact =
  sourceId :: real
  fact :: string

record ExtractionResult =
  inputPrompt :: "(string \<times> string) list"
  outputPrompt :: string
  cleanedResult :: "ExtractedFact list"
  er_usage :: "UsageInfo option"

record EmbeddingResponse =
  data :: "real list list"
  resp_usage :: "nat option"

text \<open>
  What the program takes from its runtime and from the services it calls. The built-ins
  are functions of their argument. A service is asked once per call and may answer each
  call differently: its answer is a function of the number of calls made before and of
  the request.
  \<^item> \<open>date_parse s\<close>: the time value of \<open>new Date(s)\<close>, \<open>None\<close> for \<open>NaN\<close>;
    \<open>get_day t\<close>: \<open>getDay()\<close> of the date with time value \<open>t\<close>.
  \<^item> \<open>json_parse s\<close>: \<open>JSON.parse(s)\<close>, \<open>None\<close> where it throws.
  \<^item> \<open>bind_text v\<close>: the text the database driver stores for a non-string argument bound
    to a \<open>TEXT\<close> column, \<open>None\<close> where it refuses the argument.
  \<^item> \<open>embeddings_create\<close>, \<open>embeddings_create_batch\<close>: \<open>client.embeddings.create\<close> for one
    text and for an array of texts, \<open>None\<close> where it throws.
  \<^item> \<open>chat_update n target candidates\<close>: what \<open>generateResponse\<close> returns for the prompt
    that \<open>callUpdateLlm\<close> builds from the target and the candidate memories, \<open>None\<close>
    where it throws.
  \<^item> \<open>chat_extract n segment use\<close>: the \<open>ExtractionResult\<close> that one round of the loop of
    \<open>metaTextExtract\<close> pushes for a segment (the prompt built by \<open>concatenateMessages\<close>,
    the reply cleaned by \<open>cleanResponse\<close>, or the empty result of the \<open>catch\<close>).
  \<^item> \<open>randomUUID\<close>, \<open>date_now\<close>: \<open>crypto.randomUUID()\<close> and the clock.
\<close>

record world =
  date_parse :: "string \<Rightarrow> int option"
  get_day :: "int \<Rightarrow> nat"
  json_parse :: "string \<Rightarrow> json option"
  bind_text :: "json \<Rightarrow> string option"
  embeddings_create :: "nat \<Rightarrow> string \<Rightarrow> EmbeddingResponse option"
  embeddings_create_batch :: "nat \<Rightarrow> string list \<Rightarrow> EmbeddingResponse option"
  chat_update :: "nat \<Rightarrow> string \<Rightarrow> string list \<Rightarrow> (string \<times> UsageInfo) option"
  chat_extract :: "nat \<Rightarrow> NormalizedMessage list \<Rightarrow> MessagesUse \<Rightarrow> ExtractionResult"
  randomUUID :: "nat \<Rightarrow> string"
  date_now :: "nat \<Rightarrow> int"

subsection \<open>The message normalizer: \<^verbatim>\<open>utils/normalizer.ts\<close>\<close>

text \<open>
  \<open>SESSION_RE\<close> is
  \<^verbatim>\<open>(?<date>\d{4}[/-]\d{1,2}[/-]\d{1,2})\s*\((?<weekday>[^)]+)\)\s*(?<time>\d{1,2}:\d{2}(?::\d{2})?)\<close>.
  Each greedy quantifier is followed by a character it cannot consume itself, so the
  match from a given start is found without backtracking; \<open>String.match\<close> takes the
  leftmost start. Characters are the code units below 256.
\<close>

definition is_digit :: "char \<Rightarrow> bool" where
  "is_digit c = (c \<in> set ''0123456789'')"

definition is_space :: "char \<Rightarrow> bool" where
  "is_space c = (c \<in> {CHR '' '', CHR 0x09, CHR 0x0A, CHR 0x0B, CHR 0x0C, CHR 0x0D, CHR 0xA0})"

fun take_digits :: "nat \<Rightarrow> string \<Rightarrow> string \<times> string" where
  "take_digits 0 s = ([], s)"
| "take_digits (Suc n) [] = ([], [])"
| "take_digits (Suc n) (c # cs) =
     (if is_digit c then (case take_digits n cs of (ds, r) \<Rightarrow> (c # ds, r)) else ([], c # cs))"

definition expect :: "(char \<Rightarrow> bool) \<Rightarrow> string \<Rightarrow> (char \<times> string) option" where
  "expect p s = (case s of [] \<Rightarrow> None | c # cs \<Rightarrow> if p c then Some (c, cs) else None)"

text \<open>
  The three groups of a match that starts at the head of the string: each part returns
  its group and the rest of the string.
\<close>

definition is_sep :: "char \<Rightarrow> bool" where
  "is_sep c = (c = CHR ''/'' \<or> c = CHR ''-'')"

definition match_date :: "string \<Rightarrow> (string \<times> string) option" where
  "match_date s =
     (case take_digits 4 s of (y, r1) \<Rightarrow>
        if length y \<noteq> 4 then None
        else (case expect is_sep r1 of
                None \<Rightarrow> None
              | Some (s1, r2) \<Rightarrow>
                  (case take_digits 2 r2 of (mo, r3) \<Rightarrow>
                     if mo = [] then None
                     else (case expect is_sep r3 of
                             None \<Rightarrow> None
                           | Some (s2, r4) \<Rightarrow>
                               (case take_digits 2 r4 of (d, r5) \<Rightarrow>
                                  if d = [] then None
                                  else Some (y @ [s1] @ mo @ [s2] @ d, r5))))))"

definition match_weekday :: "string \<Rightarrow> (string \<times> string) option" where
  "match_weekday s =
     (case expect (\<lambda>c. c = CHR ''('') s of
        None \<Rightarrow> None
      | Some (_, r1) \<Rightarrow>
          (let wd = takeWhile (\<lambda>c. c \<noteq> CHR '')'') r1
           in if wd = [] then None
              else (case expect (\<lambda>c. c = CHR '')'') (dropWhile (\<lambda>c. c \<noteq> CHR '')'') r1) of
                      None \<Rightarrow> None
                    | Some (_, r2) \<Rightarrow> Some (wd, r2))))"

definition match_seconds :: "string \<Rightarrow> string" where
  "match_seconds s =
     (case expect (\<lambda>c. c = CHR '':'') s of
        None \<Rightarrow> []
      | Some (_, r1) \<Rightarrow>
          (case take_digits 2 r1 of (se, _) \<Rightarrow> if length se = 2 then CHR '':'' # se else []))"

definition match_time :: "string \<Rightarrow> string option" where
  "match_time s =
     (case take_digits 2 s of (h, r1) \<Rightarrow>
        if h = [] then None
        else (case expect (\<lambda>c. c = CHR '':'') r1 of
                None \<Rightarrow> None
              | Some (_, r2) \<Rightarrow>
                  (case take_digits 2 r2 of (mi, r3) \<Rightarrow>
                     if length mi \<noteq> 2 then None
                     else Some (h @ [CHR '':''] @ mi @ match_seconds r3))))"

definition match_here :: "string \<Rightarrow> (string \<times> string \<times> string) option" where
  "match_here s =
     (case match_date s of
        None \<Rightarrow> None
      | Some (dateGroup, r1) \<Rightarrow>
          (case match_weekday (dropWhile is_space r1) of
             None \<Rightarrow> None
           | Some (weekdayGroup, r2) \<Rightarrow>
               (case match_time (dropWhile is_space r2) of
                  None \<Rightarrow> None
                | Some timeGroup \<Rightarrow> Some (dateGroup, weekdayGroup, timeGroup))))"

fun session_re :: "string \<Rightarrow> (string \<times> string \<times> string) option" where
  "session_re [] = match_here []"
| "session_re (c # cs) =
     (case match_here (c # cs) of Some g \<Rightarrow> Some g | None \<Rightarrow> session_re cs)"

definition weekdays :: "string list" where
  "weekdays = [''Sun'', ''Mon'', ''Tue'', ''Wed'', ''Thu'', ''Fri'', ''Sat'']"

text \<open>
  The date group with \<open>-\<close> turned into \<open>/\<close>, a blank and the time group; then every \<open>/\<close>
  turned into \<open>-\<close>.
\<close>

definition dateTimeStr :: "string \<Rightarrow> string \<Rightarrow> string" where
  "dateTimeStr dateGroup timeGroup =
     map (\<lambda>c. if c = CHR ''/'' then CHR ''-'' else c)
       (map (\<lambda>c. if c = CHR ''-'' then CHR ''/'' else c) dateGroup @ '' '' @ timeGroup)"

definition iso_fallback :: "world \<Rightarrow> string \<Rightarrow> (int \<times> string) outcome" where
  "iso_fallback w rawTs =
     (case date_parse w rawTs of
        Some t \<Rightarrow> Inr (t, weekdays ! (get_day w t mod 7))
      | None \<Rightarrow> Inl (SessionTimeFormat rawTs))"

definition parseSessionTimestamp :: "world \<Rightarrow> string \<Rightarrow> (int \<times> string) outcome" where
  "parseSessionTimestamp w rawTs =
     (case session_re rawTs of
        Some (dateGroup, weekdayGroup, timeGroup) \<Rightarrow>
          (case date_parse w (dateTimeStr dateGroup timeGroup) of
             Some t \<Rightarrow> Inr (t, weekdayGroup)
           | None \<Rightarrow> iso_fallback w rawTs)
      | None \<Rightarrow> iso_fallback w rawTs)"

text \<open>
  \<open>new Date(v)\<close> for a number \<open>v\<close>: the time value is clipped, and beyond
  \<open>8.64e15\<close> milliseconds on either side the date is invalid.
\<close>

definition maxTime :: int where
  "maxTime = 8640000000000000"

definition new_Date :: "int option \<Rightarrow> int option" where
  "new_Date v = (case v of None \<Rightarrow> None
                 | Some t \<Rightarrow> if - maxTime \<le> t \<and> t \<le> maxTime then Some t else None)"

record MessageNormalizer =
  lastTimestampMap :: "string \<Rightarrow> int option option"
  offsetMs :: int

definition new_MessageNormalizer :: MessageNormalizer where
  "new_MessageNormalizer = \<lparr> lastTimestampMap = (\<lambda>k. None), offsetMs = 500 \<rparr>"

fun normalizeMessages ::
  "world \<Rightarrow> Message list \<Rightarrow> MessageNormalizer
     \<Rightarrow> NormalizedMessage list outcome \<times> MessageNormalizer" where
  "normalizeMessages w [] nz = (Inr [], nz)"
| "normalizeMessages w (msg # rest) nz =
     (if \<not> truthy_str (m_timeStamp msg) then (Inl MissingTimeStamp, nz)
      else
        (let rawTs = the (m_timeStamp msg) in
         (case parseSessionTimestamp w rawTs of
            Inl e \<Rightarrow> (Inl e, nz)
          | Inr (baseDate, wd) \<Rightarrow>
              (let newDate =
                     (case lastTimestampMap nz rawTs of
                        None \<Rightarrow> Some baseDate
                      | Some lastDate \<Rightarrow> new_Date (map_option (\<lambda>t. t + offsetMs nz) lastDate));
                   nz1 = nz\<lparr>lastTimestampMap := fun_upd (lastTimestampMap nz) rawTs (Some newDate)\<rparr>
               in (case newDate of
                     None \<Rightarrow> (Inl RangeError, nz1)
                   | Some t \<Rightarrow>
                       (case normalizeMessages w rest nz1 of
                          (Inl e, nz2) \<Rightarrow> (Inl e, nz2)
                        | (Inr enrichedList, nz2) \<Rightarrow>
                            (Inr (\<lparr> n_role = role msg, n_content = content msg, n_timeStamp = t,
                                    n_speakerId = m_speakerId msg,
                                    n_speakerName = m_speakerName msg,
                                    sessionTime = rawTs, n_weekday = wd,
                                    sequenceNumber = None \<rparr> # enrichedList), nz2)))))))"

definition reset :: "MessageNormalizer \<Rightarrow> MessageNormalizer" where
  "reset nz = nz\<lparr>lastTimestampMap := (\<lambda>k. None)\<rparr>"

definition assignSequenceNumbers :: "NormalizedMessage list \<Rightarrow> NormalizedMessage list" where
  "assignSequenceNumbers messages =
     map (\<lambda>(msg, index). msg\<lparr>sequenceNumber := Some (int index)\<rparr>)
       (zip messages [0 ..< length messages])"

subsection \<open>The embedder: \<^verbatim>\<open>embeddings/openrouter.ts\<close>\<close>

record EmbedderStats =
  totalCalls :: nat
  es_totalTokens :: "nat option"

text \<open>
  The state of an \<open>OpenRouterEmbedder\<close>. \<open>requests\<close> is not a field of the class: it counts
  the requests sent to the embedding endpoint, and numbers the endpoint's answers.
\<close>

record OpenRouterEmbedder =
  cache :: "string \<Rightarrow> real list option"
  cacheEnabled :: bool
  stats :: EmbedderStats
  requests :: nat

definition new_OpenRouterEmbedder :: "bool \<Rightarrow> OpenRouterEmbedder" where
  "new_OpenRouterEmbedder enableCache =
     \<lparr> cache = (\<lambda>k. None), cacheEnabled = enableCache,
       stats = \<lparr> totalCalls = 0, es_totalTokens = Some 0 \<rparr>, requests = 0 \<rparr>"

definition getStats :: "OpenRouterEmbedder \<Rightarrow> EmbedderStats" where
  "getStats e = stats e"

text \<open>\<open>this.stats.totalCalls++\<close> and the \<open>if (response.usage)\<close> that follows it.\<close>

definition count_call :: "EmbeddingResponse \<Rightarrow> EmbedderStats \<Rightarrow> EmbedderStats" where
  "count_call response st =
     \<lparr> totalCalls = totalCalls st + 1,
       es_totalTokens =
         (case resp_usage response of
            None \<Rightarrow> es_totalTokens st
          | Some total_tokens \<Rightarrow>
              Some ((case es_totalTokens st of None \<Rightarrow> 0 | Some t \<Rightarrow> t) + total_tokens)) \<rparr>"

definition embed ::
  "world \<Rightarrow> string \<Rightarrow> OpenRouterEmbedder \<Rightarrow> real list outcome \<times> OpenRouterEmbedder" where
  "embed w text e =
     (case (if cacheEnabled e then cache e text else None) of
        Some cached \<Rightarrow> (Inr cached, e)
      | None \<Rightarrow>
          (let e1 = e\<lparr>requests := requests e + 1\<rparr> in
           (case embeddings_create w (requests e) text of
              None \<Rightarrow> (Inl UpstreamError, e1)
            | Some response \<Rightarrow>
                (let e2 = e1\<lparr>stats := count_call response (stats e1)\<rparr> in
                 (case data response of
                    [] \<Rightarrow> (Inl TypeError, e2)
                  | emb # _ \<Rightarrow>
                      (Inr emb,
                       if cacheEnabled e2 then e2\<lparr>cache := fun_upd (cache e2) text (Some emb)\<rparr>
                       else e2))))))"

text \<open>
  \<open>embedBatch\<close>: \<open>results\<close> holds the cached vector or \<open>null\<close> for each text; the texts
  without one are sent in one request, and the vectors that come back are written to
  \<open>results\<close> and to the cache, as far as the answer and the request go together.
\<close>

definition embedBatch ::
  "world \<Rightarrow> string list \<Rightarrow> OpenRouterEmbedder
     \<Rightarrow> real list option list outcome \<times> OpenRouterEmbedder" where
  "embedBatch w texts e =
     (if texts = [] then (Inr [], e)
      else
        (let results = map (\<lambda>text. if cacheEnabled e then cache e text else None) texts;
             uncachedIndices = filter (\<lambda>i. results ! i = None) [0 ..< length texts];
             uncachedTexts = map (\<lambda>i. texts ! i) uncachedIndices
         in if uncachedTexts = [] then (Inr results, e)
            else
              (let e1 = e\<lparr>requests := requests e + 1\<rparr> in
               (case embeddings_create_batch w (requests e) uncachedTexts of
                  None \<Rightarrow> (Inl UpstreamError, e1)
                | Some response \<Rightarrow>
                    (let e2 = e1\<lparr>stats := count_call response (stats e1)\<rparr> in
                     (Inr (fold (\<lambda>(i, emb) rs. rs[i := Some emb])
                             (zip uncachedIndices (data response)) results),
                      if cacheEnabled e2
                      then e2\<lparr>cache := fold (\<lambda>(text, emb) c. fun_upd c text (Some emb))
                                          (zip uncachedTexts (data response)) (cache e2)\<rparr>
                      else e2))))))"

definition clearCache :: "OpenRouterEmbedder \<Rightarrow> OpenRouterEmbedder" where
  "clearCache e = e\<lparr>cache := (\<lambda>k. None)\<rparr>"

text \<open>
  A use of the embedder other than \<open>clearCache\<close>, and the state it leaves behind, whether
  it returns or throws.
\<close>

datatype embedder_call = Embed string | EmbedBatch "string list"

fun after_call :: "world \<Rightarrow> embedder_call \<Rightarrow> OpenRouterEmbedder \<Rightarrow> OpenRouterEmbedder" where
  "after_call w (Embed text) e = snd (embed w text e)"
| "after_call w (EmbedBatch texts) e = snd (embedBatch w texts e)"

definition after_calls :: "world \<Rightarrow> embedder_call list \<Rightarrow> OpenRouterEmbedder \<Rightarrow> OpenRouterEmbedder" where
  "after_calls w cs e = fold (after_call w) cs e"

subsection \<open>The update decision: \<open>callUpdateLlm\<close> in \<^verbatim>\<open>llm/openrouter.ts\<close>\<close>

text \<open>
  Reading a property that no prototype defines (\<open>action\<close>, \<open>new_memory\<close>) off a parsed
  value: \<open>null\<close> throws, an object gives its own property or \<open>undefined\<close>, every other
  value gives \<open>undefined\<close> (\<open>None\<close>).
\<close>

fun get_prop :: "json \<Rightarrow> string \<Rightarrow> json option outcome" where
  "get_prop JNull k = Inl TypeError"
| "get_prop (JObj kvs) k = Inr (map_of kvs k)"
| "get_prop _ k = Inr None"

fun truthy :: "json option \<Rightarrow> bool" where
  "truthy None = False"
| "truthy (Some JNull) = False"
| "truthy (Some (JBool b)) = b"
| "truthy (Some (JNum x)) = (x \<noteq> 0)"
| "truthy (Some (JStr s)) = (s \<noteq> [])"
| "truthy (Some (JArr _)) = True"
| "truthy (Some (JObj _)) = True"

record UpdateResult =
  action :: json
  newMemory :: "json option"
  ur_usage :: "UsageInfo option"

text \<open>
  The state of an \<open>OpenRouterManager\<close> is the number of chat requests it has sent, which
  numbers the endpoint's answers.
\<close>

record OpenRouterManager =
  chatCalls :: nat

definition ignore_result :: "UsageInfo option \<Rightarrow> UpdateResult" where
  "ignore_result u = \<lparr> action = JStr ''ignore'', newMemory = None, ur_usage = u \<rparr>"

definition callUpdateLlm ::
  "world \<Rightarrow> string \<Rightarrow> string list \<Rightarrow> OpenRouterManager \<Rightarrow> UpdateResult \<times> OpenRouterManager" where
  "callUpdateLlm w targetMemory candidateMemories mgr =
     (let mgr1 = mgr\<lparr>chatCalls := chatCalls mgr + 1\<rparr> in
      (case chat_update w (chatCalls mgr) targetMemory candidateMemories of
         None \<Rightarrow> (ignore_result None, mgr1)
       | Some (response, usage) \<Rightarrow>
           (case json_parse w response of
              None \<Rightarrow> (ignore_result None, mgr1)
            | Some result \<Rightarrow>
                (case get_prop result ''action'' of
                   Inl e \<Rightarrow> (ignore_result None, mgr1)
                 | Inr a \<Rightarrow>
                     if \<not> truthy a then (ignore_result (Some usage), mgr1)
                     else (case get_prop result ''new_memory'' of
                             Inl e \<Rightarrow> (ignore_result None, mgr1)
                           | Inr m \<Rightarrow>
                               (\<lparr> action = the a, newMemory = m, ur_usage = Some usage \<rparr>,
                                mgr1))))))"

text \<open>One round per segment of the loop of \<open>metaTextExtract\<close>.\<close>

fun extract_segments ::
  "world \<Rightarrow> NormalizedMessage list list \<Rightarrow> MessagesUse \<Rightarrow> OpenRouterManager
     \<Rightarrow> ExtractionResult list \<times> OpenRouterManager" where
  "extract_segments w [] use mgr = ([], mgr)"
| "extract_segments w (segment # rest) use mgr =
     (case extract_segments w rest use (mgr\<lparr>chatCalls := chatCalls mgr + 1\<rparr>) of
        (results, mgr1) \<Rightarrow> (chat_extract w (chatCalls mgr) segment use # results, mgr1))"

definition metaTextExtract ::
  "world \<Rightarrow> NormalizedMessage list list \<Rightarrow> MessagesUse \<Rightarrow> OpenRouterManager
     \<Rightarrow> ExtractionResult list \<times> OpenRouterManager" where
  "metaTextExtract w segments use mgr =
     (if segments = [] then ([], mgr) else extract_segments w segments use mgr)"

subsection \<open>The engine: class \<open>LiteMemory\<close> in \<^verbatim>\<open>liteMem.ts\<close>\<close>

record TokenCounters =
  calls :: nat
  tc_promptTokens :: nat
  tc_completionTokens :: nat
  tc_totalTokens :: nat

record LiteMemConfig =
  messagesUse :: MessagesUse
  metadataGenerate :: bool

text \<open>
  The state of a \<open>LiteMemory\<close>: \<open>vectorStore\<close> is the table behind the store. \<open>sysCalls\<close> is
  not a field of the class: it counts the calls of \<open>crypto.randomUUID\<close> and of the
  clock, and numbers their answers.
\<close>

record LiteMemory =
  config :: LiteMemConfig
  vectorStore :: store
  llmManager :: OpenRouterManager
  embedder :: OpenRouterEmbedder
  normalizer :: MessageNormalizer
  tokenStats_addMemory :: TokenCounters
  tokenStats_update :: TokenCounters
  messageBuffer :: "NormalizedMessage list"
  sysCalls :: nat

definition zeroCounters :: TokenCounters where
  "zeroCounters = \<lparr> calls = 0, tc_promptTokens = 0, tc_completionTokens = 0, tc_totalTokens = 0 \<rparr>"

definition new_LiteMemory :: "LiteMemConfig \<Rightarrow> LiteMemory" where
  "new_LiteMemory cfg =
     \<lparr> config = cfg, vectorStore = [], llmManager = \<lparr> chatCalls = 0 \<rparr>,
       embedder = new_OpenRouterEmbedder True, normalizer = new_MessageNormalizer,
       tokenStats_addMemory = zeroCounters, tokenStats_update = zeroCounters,
       messageBuffer = [], sysCalls = 0 \<rparr>"

definition track :: "UsageInfo option \<Rightarrow> TokenCounters \<Rightarrow> TokenCounters" where
  "track u c =
     (case u of
        None \<Rightarrow> c
      | Some usage \<Rightarrow>
          \<lparr> calls = calls c + 1,
            tc_promptTokens = tc_promptTokens c + promptTokens usage,
            tc_completionTokens = tc_completionTokens c + completionTokens usage,
            tc_totalTokens = tc_totalTokens c + totalTokens usage \<rparr>)"

definition allowedRoles :: "MessagesUse \<Rightarrow> MessageRole set" where
  "allowedRoles use =
     (case use of user_only \<Rightarrow> {User} | assistant_only \<Rightarrow> {Assistant}
      | hybrid \<Rightarrow> {User, Assistant})"

definition filterMessagesByRole ::
  "MessagesUse \<Rightarrow> NormalizedMessage list \<Rightarrow> NormalizedMessage list" where
  "filterMessagesByRole use messages = filter (\<lambda>msg. n_role msg \<in> allowedRoles use) messages"

text \<open>
  \<open>createMemoryEntry(partial)\<close> of \<^verbatim>\<open>types/memory.ts\<close>: the defaults, with a fresh id and
  two readings of the clock, overridden by the fields of \<open>partial\<close>.
\<close>

definition or_else :: "'a option \<Rightarrow> 'a \<Rightarrow> 'a" where
  "or_else v d = (case v of Some x \<Rightarrow> x | None \<Rightarrow> d)"

definition createMemoryEntry :: "world \<Rightarrow> nat \<Rightarrow> MemoryEntryPatch \<Rightarrow> MemoryEntry \<times> nat" where
  "createMemoryEntry w k partial =
     (\<lparr> entry_id = or_else (p_id partial) (randomUUID w k),
        timeStamp = or_else (p_timeStamp partial) (date_now w (k + 1)),
        floatTimeStamp = or_else (p_floatTimeStamp partial) (real_of_int (date_now w (k + 2)) / 1000),
        weekday = or_else (p_weekday partial) [],
        category = or_else (p_category partial) [],
        subcategory = or_else (p_subcategory partial) [],
        memoryClass = or_else (p_memoryClass partial) [],
        memory = or_else (p_memory partial) [],
        originalMemory = or_else (p_originalMemory partial) [],
        compressedMemory = or_else (p_compressedMemory partial) [],
        topicId = or_else (p_topicId partial) None,
        topicSummary = or_else (p_topicSummary partial) [],
        speakerId = or_else (p_speakerId partial) [],
        speakerName = or_else (p_speakerName partial) [],
        hitTime = or_else (p_hitTime partial) 0,
        updateQueue = or_else (p_updateQueue partial) [],
        embedding = None \<rparr>, k + 3)"

text \<open>
  The argument that \<open>createMemoryEntries\<close> passes to \<open>createMemoryEntry\<close> for a fact and
  its source message; without a source message the clock is read twice.
\<close>

definition sourceMessage_of ::
  "NormalizedMessage list \<Rightarrow> ExtractedFact \<Rightarrow> NormalizedMessage option" where
  "sourceMessage_of messages f =
     find (\<lambda>msg. sequenceNumber msg \<noteq> None
                 \<and> real_of_int (the (sequenceNumber msg) div 2) = sourceId f) messages"

definition entry_fields ::
  "world \<Rightarrow> nat \<Rightarrow> ExtractedFact \<Rightarrow> NormalizedMessage option \<Rightarrow> MemoryEntryPatch \<times> nat" where
  "entry_fields w k f sourceMessage =
     (case sourceMessage of
        Some msg \<Rightarrow>
          (no_patch\<lparr> p_memory := Some (fact f), p_originalMemory := Some (fact f),
                     p_timeStamp := Some (n_timeStamp msg),
                     p_floatTimeStamp := Some (real_of_int (n_timeStamp msg) / 1000),
                     p_weekday := Some (n_weekday msg),
                     p_speakerId := Some (or_else (n_speakerId msg) []),
                     p_speakerName := Some (or_else (n_speakerName msg) []) \<rparr>, k)
      | None \<Rightarrow>
          (no_patch\<lparr> p_memory := Some (fact f), p_originalMemory := Some (fact f),
                     p_timeStamp := Some (date_now w k),
                     p_floatTimeStamp := Some (real_of_int (date_now w (k + 1)) / 1000),
                     p_weekday := Some [],
                     p_speakerId := Some [],
                     p_speakerName := Some [] \<rparr>, k + 2))"

fun createMemoryEntries ::
  "world \<Rightarrow> ExtractedFact list \<Rightarrow> NormalizedMessage list \<Rightarrow> LiteMemory
     \<Rightarrow> MemoryEntry list outcome \<times> LiteMemory" where
  "createMemoryEntries w [] messages s = (Inr [], s)"
| "createMemoryEntries w (f # facts) messages s =
     (case entry_fields w (sysCalls s) f (sourceMessage_of messages f) of (partial, k1) \<Rightarrow>
      (case createMemoryEntry w k1 partial of (entry, k2) \<Rightarrow>
       (case embed w (memory entry) (embedder s) of
          (Inl e, emb1) \<Rightarrow> (Inl e, s\<lparr>embedder := emb1, sysCalls := k2\<rparr>)
        | (Inr v, emb1) \<Rightarrow>
            (case createMemoryEntries w facts messages
                    (s\<lparr>embedder := emb1, sysCalls := k2,
                       vectorStore := insert_entry entry v (vectorStore s)\<rparr>) of
               (Inl e, s1) \<Rightarrow> (Inl e, s1)
             | (Inr entries, s1) \<Rightarrow> (Inr (entry # entries), s1)))))"

record AddMemoryOptions =
  forceExtract :: bool

record AddMemoryResult =
  addInputPrompt :: "(string \<times> string) list list"
  addOutputPrompt :: "string list"
  apiCallNums :: nat
  memoryEntriesCreated :: nat

text \<open>The loop of \<open>addMemory\<close> over the extraction results.\<close>

fun process_extractions ::
  "world \<Rightarrow> ExtractionResult list \<Rightarrow> NormalizedMessage list \<Rightarrow> AddMemoryResult \<Rightarrow> LiteMemory
     \<Rightarrow> AddMemoryResult outcome \<times> LiteMemory" where
  "process_extractions w [] messagesToProcess result s = (Inr result, s)"
| "process_extractions w (extraction # rest) messagesToProcess result s =
     (let s1 = s\<lparr>tokenStats_addMemory := track (er_usage extraction) (tokenStats_addMemory s)\<rparr>;
          result1 = result\<lparr> addInputPrompt := addInputPrompt result @ [inputPrompt extraction],
                            addOutputPrompt := addOutputPrompt result @ [outputPrompt extraction],
                            apiCallNums := apiCallNums result + 1 \<rparr>
      in (case createMemoryEntries w (cleanedResult extraction) messagesToProcess s1 of
            (Inl e, s2) \<Rightarrow> (Inl e, s2)
          | (Inr memoryEntries, s2) \<Rightarrow>
              process_extractions w rest messagesToProcess
                (result1\<lparr>memoryEntriesCreated :=
                           memoryEntriesCreated result1 + length memoryEntries\<rparr>) s2))"

definition emptyResult :: AddMemoryResult where
  "emptyResult = \<lparr> addInputPrompt = [], addOutputPrompt = [], apiCallNums = 0,
                   memoryEntriesCreated = 0 \<rparr>"

definition addMemory ::
  "world \<Rightarrow> Message list \<Rightarrow> AddMemoryOptions \<Rightarrow> LiteMemory
     \<Rightarrow> AddMemoryResult outcome \<times> LiteMemory" where
  "addMemory w messages options s =
     (case normalizeMessages w messages (normalizer s) of
        (Inl e, nz) \<Rightarrow> (Inl e, s\<lparr>normalizer := nz\<rparr>)
      | (Inr normalizedMessages, nz) \<Rightarrow>
          (let messagesWithSeq = assignSequenceNumbers normalizedMessages;
               s1 = s\<lparr>normalizer := nz, messageBuffer := messageBuffer s @ messagesWithSeq\<rparr>;
               shouldExtract = (forceExtract options \<or> length (messageBuffer s1) \<ge> 10)
           in if \<not> shouldExtract then (Inr emptyResult, s1)
              else
                (let messagesToProcess =
                       filterMessagesByRole (messagesUse (config s1)) (messageBuffer s1)
                 in if messagesToProcess = [] then (Inr emptyResult, s1\<lparr>messageBuffer := []\<rparr>)
                    else if metadataGenerate (config s1) then
                      (case metaTextExtract w [messagesToProcess] (messagesUse (config s1))
                              (llmManager s1) of
                         (extractionResults, mgr) \<Rightarrow>
                           (case process_extractions w extractionResults messagesToProcess
                                   emptyResult (s1\<lparr>llmManager := mgr\<rparr>) of
                              (Inl e, s2) \<Rightarrow> (Inl e, s2)
                            | (Inr result, s2) \<Rightarrow> (Inr result, s2\<lparr>messageBuffer := []\<rparr>)))
                    else (Inr emptyResult, s1\<lparr>messageBuffer := []\<rparr>))))"

text \<open>
  \<open>retrieve\<close>: a line \<open>`${timeStamp} ${weekday} ${memory}`\<close> is the triple of its parts, and
  the result is the list of the lines that \<open>join('\n')\<close> puts together.
\<close>

definition retrieve ::
  "world \<Rightarrow> string \<Rightarrow> int \<Rightarrow> RetrieveFilters option \<Rightarrow> LiteMemory
     \<Rightarrow> (int \<times> string \<times> string) list outcome \<times> LiteMemory" where
  "retrieve w query limit filters s =
     (case embed w query (embedder s) of
        (Inl e, emb1) \<Rightarrow> (Inl e, s\<lparr>embedder := emb1\<rparr>)
      | (Inr queryEmbedding, emb1) \<Rightarrow>
          (case search queryEmbedding limit filters (vectorStore s) of
             Inl e \<Rightarrow> (Inl e, s\<lparr>embedder := emb1\<rparr>)
           | Inr results \<Rightarrow>
               (Inr (map (\<lambda>r. (timeStamp (payload r), weekday (payload r), memory (payload r)))
                       results),
                s\<lparr>embedder := emb1\<rparr>)))"

subsection \<open>Consolidation, phase 1: \<open>constructUpdateQueueAllEntries\<close>\<close>

definition lte_filter :: "real \<Rightarrow> RetrieveFilters" where
  "lte_filter t = \<lparr> f_floatTimeStamp = Some \<lparr> gte = None, lte = Some t \<rparr>,
                    f_speakerId = None, f_category = None \<rparr>"

definition candidates_of :: "string \<Rightarrow> int \<Rightarrow> SearchResult list \<Rightarrow> UpdateCandidate list" where
  "candidates_of i keepTopN hits =
     map (\<lambda>h. \<lparr> cand_id = sr_id h, cand_score = score h \<rparr>)
       (slice0 (filter (\<lambda>h. sr_id h \<noteq> i) hits) keepTopN)"

fun queue_loop :: "int \<Rightarrow> int \<Rightarrow> MemoryEntry list \<Rightarrow> store \<Rightarrow> unit outcome \<times> store" where
  "queue_loop topK keepTopN [] st = (Inr (), st)"
| "queue_loop topK keepTopN (entry # rest) st =
     (case embedding entry of
        None \<Rightarrow> queue_loop topK keepTopN rest st
      | Some emb \<Rightarrow>
          (case search emb topK (Some (lte_filter (floatTimeStamp entry))) st of
             Inl e \<Rightarrow> (Inl e, st)
           | Inr hits \<Rightarrow>
               queue_loop topK keepTopN rest
                 (update (entry_id entry)
                    (no_patch\<lparr>p_updateQueue := Some (candidates_of (entry_id entry) keepTopN hits)\<rparr>)
                    None st)))"

definition constructUpdateQueueAllEntries ::
  "int \<Rightarrow> int \<Rightarrow> LiteMemory \<Rightarrow> unit outcome \<times> LiteMemory" where
  "constructUpdateQueueAllEntries topK keepTopN s =
     (let allEntries = getAll True (vectorStore s)
      in if allEntries = [] then (Inr (), s)
         else (case queue_loop topK keepTopN allEntries (vectorStore s) of
                 (r, st) \<Rightarrow> (r, s\<lparr>vectorStore := st\<rparr>)))"

subsection \<open>Consolidation, phase 2: \<open>offlineUpdateAllEntries\<close>\<close>

definition candidateSources :: "real \<Rightarrow> MemoryEntry list \<Rightarrow> MemoryEntry \<Rightarrow> MemoryEntry list" where
  "candidateSources scoreThreshold allEntries entry =
     filter (\<lambda>other. find (\<lambda>c. cand_id c = entry_id entry \<and> cand_score c \<ge> scoreThreshold)
                       (updateQueue other) \<noteq> None) allEntries"

text \<open>
  \<open>Apply action\<close>: the memory text bound to the \<open>UPDATE\<close> statement is \<open>result.newMemory\<close>
  itself when it is a string.
\<close>

definition memory_text :: "world \<Rightarrow> json \<Rightarrow> string option" where
  "memory_text w v = (case v of JStr m \<Rightarrow> Some m | _ \<Rightarrow> bind_text w v)"

definition apply_action :: "world \<Rightarrow> UpdateResult \<Rightarrow> string \<Rightarrow> store \<Rightarrow> unit outcome \<times> store" where
  "apply_action w result i st =
     (if action result = JStr ''delete'' then (Inr (), delete i st)
      else if action result = JStr ''update'' \<and> truthy (newMemory result) then
        (case memory_text w (the (newMemory result)) of
           None \<Rightarrow> (Inl StoreFailure, st)
         | Some m \<Rightarrow> (Inr (), update i (no_patch\<lparr>p_memory := Some m\<rparr>) None st))
      else (Inr (), st))"

fun offline_loop ::
  "world \<Rightarrow> real \<Rightarrow> MemoryEntry list \<Rightarrow> MemoryEntry list \<Rightarrow> LiteMemory
     \<Rightarrow> unit outcome \<times> LiteMemory" where
  "offline_loop w scoreThreshold allEntries [] s = (Inr (), s)"
| "offline_loop w scoreThreshold allEntries (entry # rest) s =
     (let sources = candidateSources scoreThreshold allEntries entry
      in if sources = [] then offline_loop w scoreThreshold allEntries rest s
         else
           (case callUpdateLlm w (memory entry) (map memory sources) (llmManager s) of
              (result, mgr) \<Rightarrow>
                (let s1 = s\<lparr>llmManager := mgr,
                            tokenStats_update := track (ur_usage result) (tokenStats_update s)\<rparr>
                 in (case apply_action w result (entry_id entry) (vectorStore s1) of
                       (Inl e, st) \<Rightarrow> (Inl e, s1\<lparr>vectorStore := st\<rparr>)
                     | (Inr _, st) \<Rightarrow>
                         offline_loop w scoreThreshold allEntries rest (s1\<lparr>vectorStore := st\<rparr>)))))"

definition offlineUpdateAllEntries :: "world \<Rightarrow> real \<Rightarrow> LiteMemory \<Rightarrow> unit outcome \<times> LiteMemory" where
  "offlineUpdateAllEntries w scoreThreshold s =
     (let allEntries = getAll True (vectorStore s)
      in if allEntries = [] then (Inr (), s)
         else offline_loop w scoreThreshold allEntries allEntries s)"

section \<open>Notions for stating the properties\<close>

subsection \<open>The filter grammar as the specification words it\<close>

text \<open>
  Section 4.5 of the specification: all predicates AND-combined; \<open>floatTimeStamp\<close> an
  inclusive range, \<open>speakerId\<close> and \<open>category\<close> equalities. A predicate that is not
  supplied holds.
\<close>

definition spec_satisfies_filters :: "RetrieveFilters option \<Rightarrow> MemoryEntry \<Rightarrow> bool" where
  "spec_satisfies_filters filters entry =
     (case filters of None \<Rightarrow> True
      | Some f \<Rightarrow>
          (case f_floatTimeStamp f of None \<Rightarrow> True
           | Some r \<Rightarrow>
               (case gte r of None \<Rightarrow> True | Some g \<Rightarrow> g \<le> floatTimeStamp entry)
             \<and> (case lte r of None \<Rightarrow> True | Some l \<Rightarrow> floatTimeStamp entry \<le> l))
        \<and> (case f_speakerId f of None \<Rightarrow> True | Some v \<Rightarrow> speakerId entry = v)
        \<and> (case f_category f of None \<Rightarrow> True | Some v \<Rightarrow> category entry = v))"

text \<open>
  Every bound that is supplied is truthy (a non-zero number, a non-empty string): then
  the tests of \<open>search\<close> are the filter grammar.
\<close>

definition truthy_bounds :: "RetrieveFilters option \<Rightarrow> bool" where
  "truthy_bounds filters =
     (case filters of None \<Rightarrow> True
      | Some f \<Rightarrow>
          (case f_floatTimeStamp f of None \<Rightarrow> True | Some r \<Rightarrow> gte r \<noteq> Some 0 \<and> lte r \<noteq> Some 0)
        \<and> f_speakerId f \<noteq> Some [] \<and> f_category f \<noteq> Some [])"

subsection \<open>Phase 2, target by target\<close>

text \<open>
  A record has sources when some record's queue cites it at or above the threshold. The
  scan of phase 2 asks the chat endpoint once for each target with sources, in scan
  order, so the request for a target \<open>t\<close> is request number \<open>call_number\<close> of the run,
  counted over the targets before \<open>t\<close>; \<open>reply_for\<close> is the answer of the endpoint to it:
  the text of the reply and the usage, or \<open>None\<close> where the request fails.
\<close>

definition has_sources :: "real \<Rightarrow> MemoryEntry list \<Rightarrow> MemoryEntry \<Rightarrow> bool" where
  "has_sources scoreThreshold allEntries entry = (candidateSources scoreThreshold allEntries entry \<noteq> [])"

definition call_number :: "real \<Rightarrow> MemoryEntry list \<Rightarrow> MemoryEntry list \<Rightarrow> MemoryEntry \<Rightarrow> nat" where
  "call_number scoreThreshold allEntries es t =
     length (filter (has_sources scoreThreshold allEntries)
               (takeWhile (\<lambda>e. entry_id e \<noteq> entry_id t) es))"

definition reply_for :: "world \<Rightarrow> real \<Rightarrow> LiteMemory \<Rightarrow> MemoryEntry \<Rightarrow> (string \<times> UsageInfo) option" where
  "reply_for w scoreThreshold s t =
     chat_update w
       (chatCalls (llmManager s) + call_number scoreThreshold (vectorStore s) (vectorStore s) t)
       (memory t) (map memory (candidateSources scoreThreshold (vectorStore s) t))"

text \<open>
  The decision that a reply carries, as section 4.7 of the specification words it: the
  text of the reply is parsed as JSON to \<open>{action, new_memory?}\<close>; the action \<open>delete\<close> is
  the decision to delete, the action \<open>update\<close> with a non-empty string \<open>new_memory\<close> the
  decision to update; everything else is the decision to ignore: a request that fails,
  a text that does not parse, a value that is not an object or has no \<open>action\<close>, an
  unknown action, \<open>ignore\<close> itself, and \<open>update\<close> with no \<open>new_memory\<close> or an empty one.
  The specification does not speak of an \<open>update\<close> whose \<open>new_memory\<close> is truthy and not
  a string; it is kept apart as \<open>UpdateOther\<close>.
\<close>

datatype decision = Ignore | Delete | Update string | UpdateOther json

definition spec_decision :: "world \<Rightarrow> (string \<times> UsageInfo) option \<Rightarrow> decision" where
  "spec_decision w reply =
     (case reply of
        None \<Rightarrow> Ignore
      | Some (response, usage) \<Rightarrow>
          (case json_parse w response of
             None \<Rightarrow> Ignore
           | Some parsed \<Rightarrow>
               (case parsed of
                  JObj props \<Rightarrow>
                    if map_of props ''action'' = Some (JStr ''delete'') then Delete
                    else if map_of props ''action'' = Some (JStr ''update'') then
                      (case map_of props ''new_memory'' of
                         None \<Rightarrow> Ignore
                       | Some (JStr m) \<Rightarrow> if m = [] then Ignore else Update m
                       | Some v \<Rightarrow> if truthy (Some v) then UpdateOther v else Ignore)
                    else Ignore
                | _ \<Rightarrow> Ignore)))"

text \<open>
  What a decision leaves of a row \<open>t\<close> under the target's id. For \<open>UpdateOther\<close> the text
  is the one that the database driver stores for the value.
\<close>

definition spec_rows :: "world \<Rightarrow> decision \<Rightarrow> MemoryEntry \<Rightarrow> MemoryEntry list" where
  "spec_rows w d t =
     (case d of
        Ignore \<Rightarrow> [t]
      | Delete \<Rightarrow> []
      | Update m \<Rightarrow> [t\<lparr>memory := m\<rparr>]
      | UpdateOther v \<Rightarrow> [t\<lparr>memory := the (bind_text w v)\<rparr>])"

subsection \<open>The origin of the stored facts\<close>

text \<open>The pairs \<open>(id, originalMemory)\<close> of the rows of a table, in scan order.\<close>

definition origins :: "store \<Rightarrow> (string \<times> string) list" where
  "origins st = map (\<lambda>r. (entry_id r, originalMemory r)) st"

subsection \<open>Sequences of messages under one marker\<close>

text \<open>
  A call of \<open>normalizeMessages\<close> handles the messages of its batch one after the other, as
  calls with one message each would, and ends at the first message at which it throws.
  \<open>stamped\<close> is the list \<open>enrichedList\<close> of the call when it ends: the messages that the
  call has stamped, which it returns unless it throws.
\<close>

fun stamped :: "world \<Rightarrow> Message list \<Rightarrow> MessageNormalizer \<Rightarrow> NormalizedMessage list" where
  "stamped w [] nz = []"
| "stamped w (msg # rest) nz =
     (case normalizeMessages w [msg] nz of
        (Inl e, nz1) \<Rightarrow> []
      | (Inr enriched, nz1) \<Rightarrow> enriched @ stamped w rest nz1)"






text \<open>
  Several calls of \<open>normalizeMessages\<close> on one normalizer, one batch per call, up to the
  first call that throws; the result is the messages of all batches in order.
\<close>

fun normalize_batches ::
  "world \<Rightarrow> Message list list \<Rightarrow> MessageNormalizer
     \<Rightarrow> NormalizedMessage list outcome \<times> MessageNormalizer" where
  "normalize_batches w [] nz = (Inr [], nz)"
| "normalize_batches w (batch # rest) nz =
     (case normalizeMessages w batch nz of
        (Inl e, nz1) \<Rightarrow> (Inl e, nz1)
      | (Inr out, nz1) \<Rightarrow>
          (case normalize_batches w rest nz1 of
             (Inl e, nz2) \<Rightarrow> (Inl e, nz2)
           | (Inr outs, nz2) \<Rightarrow> (Inr (out @ outs), nz2)))"

text \<open>
  The cursor of a marker after \<open>k\<close> of its messages, the first of them at \<open>base\<close>: no entry
  before the first message, then the instant given to the last one.
\<close>

definition cursor_at :: "MessageNormalizer \<Rightarrow> string \<Rightarrow> int \<Rightarrow> nat \<Rightarrow> bool" where
  "cursor_at nz marker base k =
     (lastTimestampMap nz marker
        = (if k = 0 then None else Some (Some (base + offsetMs nz * (int k - 1)))))"

text \<open>
  A marker that neither the session grammar nor the ISO fallback can parse: the pattern
  does not match or the date it yields is invalid, and \<open>new Date(marker)\<close> is invalid.
\<close>

definition unparseable :: "world \<Rightarrow> string \<Rightarrow> bool" where
  "unparseable w rawTs =
     ((case session_re rawTs of
         None \<Rightarrow> True
       | Some (dateGroup, weekdayGroup, timeGroup) \<Rightarrow>
           date_parse w (dateTimeStr dateGroup timeGroup) = None)
      \<and> date_parse w rawTs = None)"

subsection \<open>The synthesis of a record from a fact\<close>


section \<open>Sample data\<close>

text \<open>A stored fact with the given id, numeric timestamp, text and vector.\<close>

definition sample_entry :: "string \<Rightarrow> real \<Rightarrow> string \<Rightarrow> real list \<Rightarrow> MemoryEntry" where
  "sample_entry i t m emb =
     \<lparr> entry_id = i, timeStamp = \<lfloor>t * 1000\<rfloor>, floatTimeStamp = t, weekday = ''Mon'',
       category = [], subcategory = [], memoryClass = [], memory = m, originalMemory = m,
       compressedMemory = [], topicId = None, topicSummary = [], speakerId = ''u1'',
       speakerName = ''Alice'', hitTime = 0, updateQueue = [], embedding = Some emb \<rparr>"

definition sample_config :: LiteMemConfig where
  "sample_config = \<lparr> messagesUse = user_only, metadataGenerate = True \<rparr>"

text \<open>An engine over a given table, otherwise as the constructor leaves it.\<close>

definition engine_with :: "store \<Rightarrow> LiteMemory" where
  "engine_with st = (new_LiteMemory sample_config)\<lparr>vectorStore := st\<rparr>"

definition sample_store :: store where
  "sample_store = [sample_entry ''a'' 100 ''likes tea'' [1, 0],
                   sample_entry ''b'' 200 ''likes green tea'' [1, 0]]"

text \<open>The same two facts, the older one dated at the epoch itself.\<close>

definition epoch_store :: store where
  "epoch_store = [sample_entry ''a'' 0 ''likes tea'' [1, 0],
                  sample_entry ''b'' 100 ''likes green tea'' [1, 0]]"

text \<open>The sample table after phase 1: the queue of \<open>b\<close> cites \<open>a\<close>.\<close>

definition queued_store :: store where
  "queued_store =
     [sample_entry ''a'' 100 ''likes tea'' [1, 0],
      (sample_entry ''b'' 200 ''likes green tea'' [1, 0])
        \<lparr>updateQueue := [\<lparr> cand_id = ''a'', cand_score = 1 \<rparr>]\<rparr>]"

text \<open>
  A world for the examples: the chat endpoint answers every update request with an
  \<open>update\<close> decision carrying the text \<open>merged\<close> and every extraction with one fact
  citing source id \<open>0\<close>, every embedding of a single text is \<open>[1, 0]\<close>, and the only
  date that parses is the one of the marker \<open>2024/01/15 (Mon) 10:00\<close>.
\<close>

definition quoted :: "string \<Rightarrow> string" where
  "quoted s = CHR 0x22 # s @ [CHR 0x22]"

definition update_reply_text :: string where
  "update_reply_text =
     ''{'' @ quoted ''action'' @ '':'' @ quoted ''update'' @ '',''
       @ quoted ''new_memory'' @ '':'' @ quoted ''merged'' @ ''}''"

definition sample_usage :: UsageInfo where
  "sample_usage = \<lparr> promptTokens = 40, completionTokens = 8, totalTokens = 48 \<rparr>"

definition sample_world :: world where
  "sample_world =
     \<lparr> date_parse = (\<lambda>s. if s = ''2024-01-15 10:00'' then Some 1705312800000 else None),
       get_day = (\<lambda>t. 1),
       json_parse = (\<lambda>s. if s = update_reply_text
                          then Some (JObj [(''action'', JStr ''update''),
                                           (''new_memory'', JStr ''merged'')])
                          else None),
       bind_text = (\<lambda>v. None),
       embeddings_create = (\<lambda>n text. Some \<lparr> data = [[1, 0]], resp_usage = Some 3 \<rparr>),
       embeddings_create_batch =
         (\<lambda>n texts. Some \<lparr> data = map (\<lambda>t. [0, 1]) texts, resp_usage = Some 3 \<rparr>),
       chat_update = (\<lambda>n target candidates. Some (update_reply_text, sample_usage)),
       chat_extract = (\<lambda>n segment use.
          \<lparr> inputPrompt = [], outputPrompt = [],
            cleanedResult = [\<lparr> sourceId = 0, fact = ''User likes tea.'' \<rparr>],
            er_usage = Some sample_usage \<rparr>),
       randomUUID = (\<lambda>n. ''uuid-'' @ replicate n (CHR ''x'')),
       date_now = (\<lambda>n. 1705312800000 + int n) \<rparr>"

text \<open>
  A table of five facts: the queue of \<open>e\<close> cites \<open>a\<close>, \<open>b\<close>, \<open>c\<close> and \<open>d\<close> at or above
  \<open>0.9\<close>, and no queue cites \<open>e\<close>.
\<close>

definition cited_e :: MemoryEntry where
  "cited_e =
     (sample_entry ''e'' 500 ''likes tea a lot'' [1, 0])
       \<lparr>updateQueue := [\<lparr> cand_id = ''a'', cand_score = 1 \<rparr>,
                        \<lparr> cand_id = ''b'', cand_score = 1 \<rparr>,
                        \<lparr> cand_id = ''c'', cand_score = 0.95 \<rparr>,
                        \<lparr> cand_id = ''d'', cand_score = 0.9 \<rparr>]\<rparr>"

definition cited_store :: store where
  "cited_store =
     [sample_entry ''a'' 100 ''likes tea'' [1, 0],
      sample_entry ''b'' 200 ''likes green tea'' [1, 0],
      sample_entry ''c'' 300 ''drinks tea daily'' [1, 0],
      sample_entry ''d'' 400 ''owns a teapot'' [1, 0],
      cited_e]"

text \<open>
  A world whose chat endpoint answers the first update request with \<open>delete\<close>, the second
  with \<open>update\<close> carrying the text \<open>merged\<close>, the third with the action \<open>merge\<close>, which
  phase 2 does not know, and every later one with a text that is not JSON.
\<close>

definition delete_reply_text :: string where
  "delete_reply_text = ''{'' @ quoted ''action'' @ '':'' @ quoted ''delete'' @ ''}''"

definition merge_reply_text :: string where
  "merge_reply_text = ''{'' @ quoted ''action'' @ '':'' @ quoted ''merge'' @ ''}''"

definition deciding_world :: world where
  "deciding_world = sample_world
     \<lparr> json_parse :=
         (\<lambda>s. if s = delete_reply_text then Some (JObj [(''action'', JStr ''delete'')])
              else if s = update_reply_text
              then Some (JObj [(''action'', JStr ''update''), (''new_memory'', JStr ''merged'')])
              else if s = merge_reply_text then Some (JObj [(''action'', JStr ''merge'')])
              else None),
       chat_update :=
         (\<lambda>n target candidates.
            if n = 0 then Some (delete_reply_text, sample_usage)
            else if n = 1 then Some (update_reply_text, sample_usage)
            else if n = 2 then Some (merge_reply_text, sample_usage)
            else Some (''no decision'', sample_usage)) \<rparr>"

text \<open>The engine over the sample table after phase 2 has merged into \<open>a\<close>.\<close>

definition merged_engine :: LiteMemory where
  "merged_engine =
     (engine_with
        [(sample_entry ''a'' 100 ''likes tea'' [1, 0])\<lparr>memory := ''merged''\<rparr>,
         (sample_entry ''b'' 200 ''likes green tea'' [1, 0])
           \<lparr>updateQueue := [\<lparr> cand_id = ''a'', cand_score = 1 \<rparr>]\<rparr>])
     \<lparr>llmManager := \<lparr> chatCalls = 1 \<rparr>,
      tokenStats_update := \<lparr> calls = 1, tc_promptTokens = 40, tc_completionTokens = 8,
                             tc_totalTokens = 48 \<rparr>\<rparr>"

text \<open>A user message and an assistant message under the marker the sample world parses.\<close>

definition user_msg :: "string \<Rightarrow> Message" where
  "user_msg c = \<lparr> role = User, content = c, m_timeStamp = Some ''2024/01/15 (Mon) 10:00'',
                  m_speakerId = Some ''u1'', m_speakerName = Some ''Alice'' \<rparr>"

definition assistant_msg :: "string \<Rightarrow> Message" where
  "assistant_msg c = \<lparr> role = Assistant, content = c,
                       m_timeStamp = Some ''2024/01/15 (Mon) 10:00'',
                       m_speakerId = Some ''bot'', m_speakerName = Some ''Assistant'' \<rparr>"






section \<open>Properties of the store\<close>

lemmas store_eval = search_def getAll_def rowToMemoryEntry_def blobToEmbedding_def
  filtered_out_def lte_filter_def
  truthy_num_def truthy_str_def cosineSimilarity_def sort_desc_def slice0_def
  sample_entry_def candidates_of_def update_def setClauses_def no_patch_def delete_def
  insert_entry_def

text \<open>
  An entry read from a row is the row but for its embedding, which is read back as the
  empty vector where it is asked for and the column holds a blob.
\<close>

lemma read_row: "rowToMemoryEntry row b = row\<lparr>embedding := embedding (rowToMemoryEntry row b)\<rparr>"
  by (simp add: rowToMemoryEntry_def split: option.splits)

lemma read_embedding:
  "embedding (rowToMemoryEntry row True) = map_option (\<lambda>floats. []) (embedding row)"
  by (simp add: rowToMemoryEntry_def blobToEmbedding_def split: option.splits)

lemma read_fields:
  "entry_id (rowToMemoryEntry row b) = entry_id row"
  "floatTimeStamp (rowToMemoryEntry row b) = floatTimeStamp row"
  "speakerId (rowToMemoryEntry row b) = speakerId row"
  "category (rowToMemoryEntry row b) = category row"
  "memory (rowToMemoryEntry row b) = memory row"
  "updateQueue (rowToMemoryEntry row b) = updateQueue row"
  by (simp_all add: rowToMemoryEntry_def split: option.splits)

lemma getAll_ids: "map entry_id (getAll b st) = map entry_id st"
  by (simp add: getAll_def read_fields)

lemma getAll_empty: "(getAll b st = []) = (st = [])"
  by (simp add: getAll_def)

lemma filtered_out_read: "filtered_out f (rowToMemoryEntry row b) = filtered_out f row"
  by (simp add: filtered_out_def read_fields cong: option.case_cong)

lemma spec_satisfies_read:
  "spec_satisfies_filters f (rowToMemoryEntry row b) = spec_satisfies_filters f row"
  by (simp add: spec_satisfies_filters_def read_fields cong: option.case_cong)

lemma score_entries_sound:
  "score_entries q f es = Inr rs \<Longrightarrow> h \<in> set rs \<Longrightarrow>
     payload h \<in> set es \<and> sr_id h = entry_id (payload h) \<and> \<not> filtered_out f (payload h)
     \<and> (\<exists>emb. embedding (payload h) = Some emb \<and> cosineSimilarity q emb = Inr (score h))"
proof (induction es arbitrary: rs)
  case Nil
  then show ?case by simp
next
  case (Cons e es)
  then show ?case
    by (auto split: option.splits if_splits sum.splits)
qed

lemma set_slice0: "set (slice0 xs n) \<subseteq> set xs"
  by (auto simp: slice0_def dest: in_set_takeD)

lemma length_slice0: "0 \<le> n \<Longrightarrow> length (slice0 xs n) \<le> nat n"
  by (simp add: slice0_def)

lemma sorted_wrt_slice0: "sorted_wrt P xs \<Longrightarrow> sorted_wrt P (slice0 xs n)"
  by (simp add: slice0_def sorted_wrt_take)

lemma sorted_desc_sort: "sorted_wrt (\<lambda>a b. score a \<ge> score b) (sort_desc xs)"
proof -
  have "sorted (map (\<lambda>h. - score h) (sort_key (\<lambda>h. - score h) xs))"
    by (rule sorted_sort_key)
  then show ?thesis
    by (simp add: sort_desc_def sorted_map sorted_wrt_iff_nth_less)
qed

lemma search_hit:
  assumes "search q k f st = Inr rs" and "h \<in> set rs"
  shows "payload h \<in> set (getAll True st) \<and> sr_id h = entry_id (payload h)
     \<and> \<not> filtered_out f (payload h)
     \<and> (\<exists>emb. embedding (payload h) = Some emb \<and> cosineSimilarity q emb = Inr (score h))"
proof -
  from assms(1) obtain scored where sc: "score_entries q f (getAll True st) = Inr scored"
    and rs: "rs = slice0 (sort_desc scored) k"
    by (auto simp: search_def split: sum.splits)
  from rs assms(2) have "h \<in> set scored"
    using set_slice0 [of "sort_desc scored" k] by (auto simp: sort_desc_def)
  with sc show ?thesis by (rule score_entries_sound)
qed

lemma search_sound:
  assumes "search q k f st = Inr rs" and "h \<in> set rs"
  shows "\<exists>r \<in> set st. payload h = rowToMemoryEntry r True \<and> sr_id h = entry_id r
           \<and> \<not> filtered_out f r \<and> cosineSimilarity q [] = Inr (score h)"
proof -
  from search_hit [OF assms] obtain emb where p: "payload h \<in> set (getAll True st)"
    "sr_id h = entry_id (payload h)" "\<not> filtered_out f (payload h)"
    "embedding (payload h) = Some emb" "cosineSimilarity q emb = Inr (score h)"
    by blast
  from p(1) obtain r where r: "r \<in> set st" "payload h = rowToMemoryEntry r True"
    by (auto simp: getAll_def)
  from r(2) p(4) have "emb = []"
    by (auto simp: read_embedding)
  with r p show ?thesis
    by (auto simp: read_fields filtered_out_read)
qed

text \<open>
  A query that is not the empty vector meets the vectors as they are read back: the
  search throws as soon as a row with an embedding passes the filter tests.
\<close>

lemma score_entries_mismatch:
  "q \<noteq> [] \<Longrightarrow> \<forall>e \<in> set es. embedding e = None \<or> embedding e = Some [] \<Longrightarrow>
   \<exists>e \<in> set es. embedding e \<noteq> None \<and> \<not> filtered_out f e \<Longrightarrow>
   score_entries q f es = Inl VectorLengthMismatch"
proof (induction es)
  case Nil
  then show ?case by simp
next
  case (Cons e es)
  show ?case
  proof (cases "embedding e \<noteq> None \<and> \<not> filtered_out f e")
    case True
    with Cons.prems(1,2) show ?thesis
      by (auto simp: cosineSimilarity_def)
  next
    case False
    with Cons.prems(3) have "\<exists>e \<in> set es. embedding e \<noteq> None \<and> \<not> filtered_out f e"
      by auto
    with Cons.IH Cons.prems(1,2) have "score_entries q f es = Inl VectorLengthMismatch"
      by simp
    with False Cons.prems(1,2) show ?thesis
      by (auto simp: cosineSimilarity_def split: option.splits)
  qed
qed

lemma search_mismatch:
  assumes "q \<noteq> []" and "r \<in> set st" and "embedding r \<noteq> None" and "\<not> filtered_out f r"
  shows "search q k f st = Inl VectorLengthMismatch"
proof -
  have "\<forall>e \<in> set (getAll True st). embedding e = None \<or> embedding e = Some []"
    by (auto simp: getAll_def read_embedding)
  moreover have "\<exists>e \<in> set (getAll True st). embedding e \<noteq> None \<and> \<not> filtered_out f e"
    using assms(2,3,4)
    by (auto simp: getAll_def read_embedding filtered_out_read intro!: bexI [of _ r])
  ultimately have "score_entries q f (getAll True st) = Inl VectorLengthMismatch"
    using assms(1) by (intro score_entries_mismatch)
  then show ?thesis by (simp add: search_def)
qed

lemma search_sorted:
  "search q k f st = Inr rs \<Longrightarrow> sorted_wrt (\<lambda>a b. score a \<ge> score b) rs"
  by (auto simp: search_def split: sum.splits intro: sorted_wrt_slice0 sorted_desc_sort)

lemma search_length:
  "search q k f st = Inr rs \<Longrightarrow> 0 \<le> k \<Longrightarrow> length rs \<le> nat k"
  by (auto simp: search_def length_slice0 split: sum.splits)

lemma filtered_out_spec:
  "truthy_bounds filters \<Longrightarrow> filtered_out filters entry = (\<not> spec_satisfies_filters filters entry)"
  by (auto simp: truthy_bounds_def filtered_out_def spec_satisfies_filters_def truthy_num_def
      truthy_str_def split: option.splits)

text \<open>
  For bounds that are truthy and a limit that is not negative, a search that returns
  is as the claim C1 says.
\<close>

lemma search_correct_truthy_bounds:
  assumes "truthy_bounds filters" and "0 \<le> k" and "search q k filters st = Inr rs"
  shows "length rs \<le> nat k
     \<and> (\<forall>h \<in> set rs. payload h \<in> set (getAll True st)
            \<and> spec_satisfies_filters filters (payload h)
            \<and> (\<exists>emb. embedding (payload h) = Some emb \<and> cosineSimilarity q emb = Inr (score h)))
     \<and> sorted_wrt (\<lambda>a b. score a \<ge> score b) rs"
  using assms search_hit [OF assms(3)] search_sorted [OF assms(3)] search_length [OF assms(3)]
  by (simp add: filtered_out_spec)

text \<open>
  C1 (search correctness). The claim: \<open>search(q, k, filters)\<close> returns at most \<open>k\<close> results,
  each satisfying every supplied filter predicate, sorted by cosine similarity descending.
  The code tests a bound only if the bound is truthy, so a supplied bound of \<open>0\<close> filters
  nothing: with the query \<open>[]\<close> and \<open>{floatTimeStamp: {lte: 0}}\<close> the search returns a
  record whose numeric timestamp is \<open>100\<close>. The query is the one that phase 1 makes for a
  record dated at the epoch: the vector of the record as it is read back.
\<close>

theorem search_ignores_zero_bound:
  "search [] 10
     (Some \<lparr> f_floatTimeStamp = Some \<lparr> gte = None, lte = Some 0 \<rparr>,
             f_speakerId = None, f_category = None \<rparr>)
     [sample_entry ''b'' 100 ''likes green tea'' [1, 0]]
   = Inr [\<lparr> sr_id = ''b'', score = 0, payload = sample_entry ''b'' 100 ''likes green tea'' [] \<rparr>]
   \<and> floatTimeStamp (sample_entry ''b'' 100 ''likes green tea'' []) = 100
   \<and> \<not> spec_satisfies_filters
         (Some \<lparr> f_floatTimeStamp = Some \<lparr> gte = None, lte = Some 0 \<rparr>,
                 f_speakerId = None, f_category = None \<rparr>)
         (sample_entry ''b'' 100 ''likes green tea'' [])"
  by (simp add: store_eval spec_satisfies_filters_def)

section \<open>Consolidation, phase 1\<close>

lemmas engine_eval = constructUpdateQueueAllEntries_def engine_with_def new_LiteMemory_def
  sample_store_def epoch_store_def

lemma update_ids: "map entry_id (update i u emb st) = map entry_id st"
  by (induction st) (auto simp: update_def setClauses_def)

lemma update_keys:
  "map (\<lambda>r. (entry_id r, floatTimeStamp r)) (update i u emb st)
     = map (\<lambda>r. (entry_id r, floatTimeStamp r)) st"
  by (induction st) (auto simp: update_def setClauses_def)

lemma update_queue_rows:
  "r \<in> set (update i (no_patch\<lparr>p_updateQueue := Some q\<rparr>) None st) \<Longrightarrow>
     (\<exists>r0 \<in> set st. entry_id r0 = i \<and> r = r0\<lparr>updateQueue := q\<rparr>) \<or> (r \<in> set st \<and> entry_id r \<noteq> i)"
  by (auto simp: update_def setClauses_def no_patch_def)

lemma candidates_of_hit:
  "c \<in> set (candidates_of i n hits) \<Longrightarrow>
     cand_id c \<noteq> i \<and> (\<exists>h \<in> set hits. sr_id h = cand_id c \<and> score h = cand_score c)"
  using set_slice0 [of "filter (\<lambda>h. sr_id h \<noteq> i) hits" n]
  by (auto simp: candidates_of_def)

lemma candidates_of_not_self: "c \<in> set (candidates_of i n hits) \<Longrightarrow> cand_id c \<noteq> i"
  by (simp add: candidates_of_hit)

lemma lte_filter_bound:
  "\<not> filtered_out (Some (lte_filter t)) p \<Longrightarrow> t \<noteq> 0 \<Longrightarrow> floatTimeStamp p \<le> t"
  by (simp add: filtered_out_def lte_filter_def truthy_num_def truthy_str_def)

lemma queue_loop_self_free:
  "queue_loop topK keepTopN es st = (Inr u, st') \<Longrightarrow>
   \<forall>e \<in> set es. embedding e \<noteq> None \<Longrightarrow>
   \<forall>r \<in> set st. entry_id r \<notin> entry_id ` set es \<longrightarrow> entry_id r \<notin> cand_id ` set (updateQueue r) \<Longrightarrow>
   \<forall>r \<in> set st'. entry_id r \<notin> cand_id ` set (updateQueue r)"
proof (induction es arbitrary: st)
  case Nil
  then show ?case by simp
next
  case (Cons e es)
  from Cons.prems(2) obtain emb where emb: "embedding e = Some emb" by auto
  from Cons.prems(1) emb obtain hits where
    hits: "search emb topK (Some (lte_filter (floatTimeStamp e))) st = Inr hits"
    by (auto split: sum.splits)
  let ?q = "candidates_of (entry_id e) keepTopN hits"
  let ?st1 = "update (entry_id e) (no_patch\<lparr>p_updateQueue := Some ?q\<rparr>) None st"
  from Cons.prems(1) emb hits have loop: "queue_loop topK keepTopN es ?st1 = (Inr u, st')"
    by simp
  have "\<forall>r \<in> set ?st1. entry_id r \<notin> entry_id ` set es
          \<longrightarrow> entry_id r \<notin> cand_id ` set (updateQueue r)"
  proof (intro ballI impI)
    fix r assume r: "r \<in> set ?st1" and nin: "entry_id r \<notin> entry_id ` set es"
    from update_queue_rows [OF r] show "entry_id r \<notin> cand_id ` set (updateQueue r)"
    proof
      assume "\<exists>r0 \<in> set st. entry_id r0 = entry_id e \<and> r = r0\<lparr>updateQueue := ?q\<rparr>"
      then show ?thesis
        by (auto dest: candidates_of_not_self)
    next
      assume "r \<in> set st \<and> entry_id r \<noteq> entry_id e"
      with nin Cons.prems(3) show ?thesis by auto
    qed
  qed
  with Cons.IH [OF loop] Cons.prems(2) show ?case by simp
qed

lemma queue_loop_directed:
  "queue_loop topK keepTopN es st = (Inr u, st') \<Longrightarrow>
   \<forall>e \<in> set es. embedding e \<noteq> None \<and> floatTimeStamp e \<noteq> 0 \<Longrightarrow>
   \<forall>e \<in> set es. \<forall>r \<in> set st. entry_id r = entry_id e \<longrightarrow> floatTimeStamp r = floatTimeStamp e \<Longrightarrow>
   K = (\<lambda>r. (entry_id r, floatTimeStamp r)) ` set st \<Longrightarrow>
   \<forall>r \<in> set st. entry_id r \<notin> entry_id ` set es \<longrightarrow>
      (\<forall>c \<in> set (updateQueue r). \<exists>k \<in> K. fst k = cand_id c \<and> snd k \<le> floatTimeStamp r) \<Longrightarrow>
   (\<forall>r \<in> set st'. \<forall>c \<in> set (updateQueue r). \<exists>k \<in> K. fst k = cand_id c \<and> snd k \<le> floatTimeStamp r)
   \<and> (\<lambda>r. (entry_id r, floatTimeStamp r)) ` set st' = K"
proof (induction es arbitrary: st)
  case Nil
  then show ?case by simp
next
  case (Cons e es)
  from Cons.prems(2) obtain emb where emb: "embedding e = Some emb"
    and nz: "floatTimeStamp e \<noteq> 0" by auto
  from Cons.prems(1) emb obtain hits where
    hits: "search emb topK (Some (lte_filter (floatTimeStamp e))) st = Inr hits"
    by (auto split: sum.splits)
  let ?q = "candidates_of (entry_id e) keepTopN hits"
  let ?st1 = "update (entry_id e) (no_patch\<lparr>p_updateQueue := Some ?q\<rparr>) None st"
  from Cons.prems(1) emb hits have loop: "queue_loop topK keepTopN es ?st1 = (Inr u, st')"
    by simp
  have keys: "(\<lambda>r. (entry_id r, floatTimeStamp r)) ` set ?st1 = K"
    using update_keys [of "entry_id e" _ None st] Cons.prems(4)
    by (metis (no_types, lifting) set_map)
  have same: "\<forall>e' \<in> set es. \<forall>r \<in> set ?st1. entry_id r = entry_id e'
                 \<longrightarrow> floatTimeStamp r = floatTimeStamp e'"
  proof (intro ballI impI)
    fix e' r assume e': "e' \<in> set es" and r: "r \<in> set ?st1" and eq: "entry_id r = entry_id e'"
    from update_queue_rows [OF r] obtain r0 where "r0 \<in> set st" "entry_id r0 = entry_id r"
      "floatTimeStamp r0 = floatTimeStamp r" by auto
    with Cons.prems(3) e' eq show "floatTimeStamp r = floatTimeStamp e'" by auto
  qed
  have hit_older: "\<exists>k \<in> K. fst k = cand_id c \<and> snd k \<le> floatTimeStamp e" if c: "c \<in> set ?q" for c
  proof -
    from candidates_of_hit [OF c] obtain h where h: "h \<in> set hits" "sr_id h = cand_id c" by auto
    from search_sound [OF hits h(1)] obtain p where p: "p \<in> set st" "sr_id h = entry_id p"
      "\<not> filtered_out (Some (lte_filter (floatTimeStamp e))) p" by auto
    from lte_filter_bound [OF p(3) nz] have "floatTimeStamp p \<le> floatTimeStamp e" .
    moreover have "(entry_id p, floatTimeStamp p) \<in> K"
      using p(1) Cons.prems(4) by auto
    ultimately show ?thesis using h(2) p(2) by force
  qed
  have "\<forall>r \<in> set ?st1. entry_id r \<notin> entry_id ` set es \<longrightarrow>
      (\<forall>c \<in> set (updateQueue r). \<exists>k \<in> K. fst k = cand_id c \<and> snd k \<le> floatTimeStamp r)"
  proof (intro ballI impI)
    fix r c assume r: "r \<in> set ?st1" and nin: "entry_id r \<notin> entry_id ` set es"
      and c: "c \<in> set (updateQueue r)"
    from update_queue_rows [OF r]
    show "\<exists>k \<in> K. fst k = cand_id c \<and> snd k \<le> floatTimeStamp r"
    proof
      assume "\<exists>r0 \<in> set st. entry_id r0 = entry_id e \<and> r = r0\<lparr>updateQueue := ?q\<rparr>"
      then obtain r0 where r0: "r0 \<in> set st" "entry_id r0 = entry_id e" "r = r0\<lparr>updateQueue := ?q\<rparr>"
        by auto
      from Cons.prems(3) r0 have "floatTimeStamp r0 = floatTimeStamp e" by auto
      with r0(3) c hit_older [of c] show ?thesis by simp
    next
      assume "r \<in> set st \<and> entry_id r \<noteq> entry_id e"
      with nin c Cons.prems(5) show ?thesis by auto
    qed
  qed
  with Cons.IH [OF loop _ same keys [symmetric]] Cons.prems(2) show ?case by simp
qed

lemma construct_queue_loop:
  "vectorStore s \<noteq> [] \<Longrightarrow> constructUpdateQueueAllEntries topK keepTopN s = (r, s') \<Longrightarrow>
     queue_loop topK keepTopN (getAll True (vectorStore s)) (vectorStore s) = (r, vectorStore s')"
  by (auto simp: constructUpdateQueueAllEntries_def getAll_empty Let_def split: prod.splits)

lemma getAll_embedded:
  "\<forall>r \<in> set st. embedding r \<noteq> None \<Longrightarrow> \<forall>e \<in> set (getAll True st). embedding e \<noteq> None"
  by (auto simp: getAll_def read_embedding)

lemma getAll_id_set: "entry_id ` set (getAll b st) = entry_id ` set st"
  using getAll_ids [of b st] by (metis set_map)

text \<open>
  C4 (self-exclusion). After \<open>constructUpdateQueueAllEntries\<close> has completed, no record's
  \<open>updateQueue\<close> contains the record's own id. Every row that \<open>insert\<close> writes carries an
  embedding, which is the first hypothesis; a row without one is skipped by the loop and
  keeps the queue it had.
\<close>

theorem queue_self_exclusion:
  assumes "\<forall>r \<in> set (vectorStore s). embedding r \<noteq> None"
    and "constructUpdateQueueAllEntries topK keepTopN s = (Inr (), s')"
  shows "\<forall>r \<in> set (vectorStore s'). entry_id r \<notin> cand_id ` set (updateQueue r)"
proof (cases "vectorStore s = []")
  case True
  with assms(2) show ?thesis
    by (simp add: constructUpdateQueueAllEntries_def getAll_empty)
next
  case False
  from construct_queue_loop [OF False assms(2)]
  have "queue_loop topK keepTopN (getAll True (vectorStore s)) (vectorStore s)
          = (Inr (), vectorStore s')" .
  from queue_loop_self_free [OF this getAll_embedded [OF assms(1)]] show ?thesis
    by (simp add: getAll_id_set)
qed

theorem queue_self_exclusion_witness:
  "list_all (\<lambda>r. embedding r \<noteq> None) (vectorStore (engine_with sample_store))
   \<and> constructUpdateQueueAllEntries 20 10 (engine_with sample_store)
       = (Inr (), engine_with
            [sample_entry ''a'' 100 ''likes tea'' [1, 0],
             (sample_entry ''b'' 200 ''likes green tea'' [1, 0])
               \<lparr>updateQueue := [\<lparr> cand_id = ''a'', cand_score = 0 \<rparr>]\<rparr>])
   \<and> list_all (\<lambda>r. entry_id r \<notin> cand_id ` set (updateQueue r))
        (vectorStore (engine_with
            [sample_entry ''a'' 100 ''likes tea'' [1, 0],
             (sample_entry ''b'' 200 ''likes green tea'' [1, 0])
               \<lparr>updateQueue := [\<lparr> cand_id = ''a'', cand_score = 0 \<rparr>]\<rparr>]))"
proof -
  have h1: "\<forall>r \<in> set (vectorStore (engine_with sample_store)). embedding r \<noteq> None"
    by (simp add: engine_eval sample_entry_def)
  have h2: "constructUpdateQueueAllEntries 20 10 (engine_with sample_store)
       = (Inr (), engine_with
            [sample_entry ''a'' 100 ''likes tea'' [1, 0],
             (sample_entry ''b'' 200 ''likes green tea'' [1, 0])
               \<lparr>updateQueue := [\<lparr> cand_id = ''a'', cand_score = 0 \<rparr>]\<rparr>])"
    by (simp add: engine_eval store_eval)
  from queue_self_exclusion [OF h1 h2] h1 h2 show ?thesis
    unfolding list_all_iff by blast
qed

text \<open>
  Temporal directionality holds for the records whose numeric timestamp is not \<open>0\<close>:
  the \<open>lte\<close> bound that phase 1 passes to \<open>search\<close> is then truthy.
\<close>

lemma queue_directed_nonzero:
  assumes "distinct (map entry_id (vectorStore s))"
    and "\<forall>r \<in> set (vectorStore s). embedding r \<noteq> None \<and> floatTimeStamp r \<noteq> 0"
    and "constructUpdateQueueAllEntries topK keepTopN s = (Inr (), s')"
  shows "\<forall>r \<in> set (vectorStore s'). \<forall>c \<in> set (updateQueue r).
           \<exists>t \<in> set (vectorStore s'). entry_id t = cand_id c \<and> floatTimeStamp t \<le> floatTimeStamp r"
proof (cases "vectorStore s = []")
  case True
  with assms(3) show ?thesis
    by (simp add: constructUpdateQueueAllEntries_def getAll_empty)
next
  case False
  let ?st = "vectorStore s"
  let ?es = "getAll True ?st"
  from construct_queue_loop [OF False assms(3)]
  have loop: "queue_loop topK keepTopN ?es ?st = (Inr (), vectorStore s')" .
  have emb: "\<forall>e \<in> set ?es. embedding e \<noteq> None \<and> floatTimeStamp e \<noteq> 0"
    using assms(2) by (auto simp: getAll_def read_embedding read_fields)
  have same: "\<forall>e \<in> set ?es. \<forall>r \<in> set ?st. entry_id r = entry_id e
                 \<longrightarrow> floatTimeStamp r = floatTimeStamp e"
    using assms(1) by (auto simp: getAll_def read_fields distinct_map dest: inj_onD)
  have cited: "\<forall>r \<in> set ?st. entry_id r \<notin> entry_id ` set ?es \<longrightarrow>
      (\<forall>c \<in> set (updateQueue r). \<exists>k \<in> (\<lambda>r. (entry_id r, floatTimeStamp r)) ` set ?st.
          fst k = cand_id c \<and> snd k \<le> floatTimeStamp r)"
    by (simp add: getAll_id_set)
  from queue_loop_directed [OF loop emb same refl cited]
  have dir: "\<forall>r \<in> set (vectorStore s'). \<forall>c \<in> set (updateQueue r).
               \<exists>k \<in> (\<lambda>r. (entry_id r, floatTimeStamp r)) ` set ?st.
                  fst k = cand_id c \<and> snd k \<le> floatTimeStamp r"
    and keys: "(\<lambda>r. (entry_id r, floatTimeStamp r)) ` set (vectorStore s')
                 = (\<lambda>r. (entry_id r, floatTimeStamp r)) ` set ?st"
    by auto
  show ?thesis
  proof (intro ballI)
    fix r c assume "r \<in> set (vectorStore s')" "c \<in> set (updateQueue r)"
    with dir obtain k where k: "k \<in> (\<lambda>r. (entry_id r, floatTimeStamp r)) ` set ?st"
      "fst k = cand_id c" "snd k \<le> floatTimeStamp r" by blast
    from k(1) keys have "k \<in> (\<lambda>r. (entry_id r, floatTimeStamp r)) ` set (vectorStore s')"
      by simp
    then obtain t where t: "t \<in> set (vectorStore s')" "k = (entry_id t, floatTimeStamp t)"
      by (rule imageE)
    from t(2) k(2) k(3) have "entry_id t = cand_id c \<and> floatTimeStamp t \<le> floatTimeStamp r"
      by simp
    with t(1) show "\<exists>t \<in> set (vectorStore s'). entry_id t = cand_id c
                      \<and> floatTimeStamp t \<le> floatTimeStamp r" ..
  qed
qed

text \<open>
  C2 (temporal directionality). The claim: after \<open>constructUpdateQueueAllEntries\<close>, every
  \<open>candidateId\<close> in a record's \<open>updateQueue\<close> identifies a record whose \<open>floatTimeStamp\<close>
  is at most the holder's. For a holder dated at the epoch the bound \<open>lte: 0\<close> is falsy
  and \<open>search\<close> does not filter: the queue of record \<open>a\<close>, at \<open>0\<close>, cites record \<open>b\<close>,
  at \<open>100\<close>.
\<close>

theorem queue_at_epoch_cites_later_record:
  "constructUpdateQueueAllEntries 20 10 (engine_with epoch_store)
     = (Inr (), engine_with
          [(sample_entry ''a'' 0 ''likes tea'' [1, 0])
             \<lparr>updateQueue := [\<lparr> cand_id = ''b'', cand_score = 0 \<rparr>]\<rparr>,
           (sample_entry ''b'' 100 ''likes green tea'' [1, 0])
             \<lparr>updateQueue := [\<lparr> cand_id = ''a'', cand_score = 0 \<rparr>]\<rparr>])
   \<and> floatTimeStamp (sample_entry ''a'' 0 ''likes tea'' [1, 0])
       < floatTimeStamp (sample_entry ''b'' 100 ''likes green tea'' [1, 0])"
  by (simp add: engine_eval store_eval)

section \<open>Consolidation, phase 2\<close>

lemma concat_map_concat:
  "concat (map g (concat (map h xs))) = concat (map (\<lambda>x. concat (map g (h x))) xs)"
  by (induction xs) simp_all

lemma concat_map_cong:
  "(\<And>x. x \<in> set xs \<Longrightarrow> f x = g x) \<Longrightarrow> concat (map f xs) = concat (map g xs)"
  by (induction xs) simp_all

lemma delete_rows: "delete j st = concat (map (\<lambda>r. if entry_id r = j then [] else [r]) st)"
  by (induction st) (simp_all add: delete_def)

lemma update_memory_map:
  "update i (no_patch\<lparr>p_memory := Some m\<rparr>) None st
     = map (\<lambda>r. if entry_id r = i then r\<lparr>memory := m\<rparr> else r) st"
  by (simp add: update_def setClauses_def no_patch_def)

lemma update_memory_rows:
  "update j (no_patch\<lparr>p_memory := Some m\<rparr>) None st
     = concat (map (\<lambda>r. if entry_id r = j then [r\<lparr>memory := m\<rparr>] else [r]) st)"
  by (induction st) (simp_all add: update_memory_map)

lemma spec_rows_id: "r' \<in> set (spec_rows w d r) \<Longrightarrow> entry_id r' = entry_id r"
  by (cases d) (auto simp: spec_rows_def)

lemma callUpdateLlm_counts: "snd (callUpdateLlm w a b mgr) = mgr\<lparr>chatCalls := chatCalls mgr + 1\<rparr>"
  by (simp add: callUpdateLlm_def Let_def split: option.splits prod.splits sum.splits)

text \<open>
  What \<open>callUpdateLlm\<close> returns for a reply, decision by decision.
\<close>

lemma callUpdateLlm_spec_decision:
  "(case spec_decision w (chat_update w (chatCalls mgr) a b) of
      Ignore \<Rightarrow> action (fst (callUpdateLlm w a b mgr)) \<noteq> JStr ''delete''
                \<and> \<not> (action (fst (callUpdateLlm w a b mgr)) = JStr ''update''
                      \<and> truthy (newMemory (fst (callUpdateLlm w a b mgr))))
    | Delete \<Rightarrow> action (fst (callUpdateLlm w a b mgr)) = JStr ''delete''
    | Update m \<Rightarrow> action (fst (callUpdateLlm w a b mgr)) = JStr ''update''
                  \<and> newMemory (fst (callUpdateLlm w a b mgr)) = Some (JStr m) \<and> m \<noteq> []
    | UpdateOther v \<Rightarrow> action (fst (callUpdateLlm w a b mgr)) = JStr ''update''
                  \<and> newMemory (fst (callUpdateLlm w a b mgr)) = Some v \<and> truthy (Some v)
                  \<and> memory_text w v = bind_text w v)"
proof (cases "chat_update w (chatCalls mgr) a b")
  case None
  then show ?thesis
    by (simp add: spec_decision_def callUpdateLlm_def ignore_result_def)
next
  case (Some reply)
  obtain response usage where reply: "reply = (response, usage)" by (cases reply)
  show ?thesis
  proof (cases "json_parse w response")
    case None
    with Some reply show ?thesis
      by (simp add: spec_decision_def callUpdateLlm_def ignore_result_def)
  next
    case parsed: (Some v)
    show ?thesis
    proof (cases v)
      case (JObj props)
      show ?thesis
      proof (cases "map_of props ''action''")
        case None
        with Some reply parsed JObj show ?thesis
          by (simp add: spec_decision_def callUpdateLlm_def ignore_result_def)
      next
        case act: (Some x)
        show ?thesis
        proof (cases "truthy (Some x)")
          case False
          with Some reply parsed JObj act show ?thesis
            by (auto simp: spec_decision_def callUpdateLlm_def ignore_result_def)
        next
          case True
          with Some reply parsed JObj act
          have res: "fst (callUpdateLlm w a b mgr)
                = \<lparr> action = x, newMemory = map_of props ''new_memory'', ur_usage = Some usage \<rparr>"
            by (simp add: callUpdateLlm_def)
          show ?thesis
          proof (cases "map_of props ''new_memory''")
            case None
            with Some reply parsed JObj act res show ?thesis
              by (simp add: spec_decision_def)
          next
            case mem: (Some y)
            with Some reply parsed JObj act res show ?thesis
              by (cases y) (simp_all add: spec_decision_def memory_text_def)
          qed
        qed
      qed
    qed (use Some reply parsed in
          \<open>simp_all add: spec_decision_def callUpdateLlm_def ignore_result_def\<close>)
  qed
qed

lemma apply_action_decided:
  assumes "apply_action w (fst (callUpdateLlm w a b mgr)) j st = (Inr u, st')"
  shows "st' = concat (map (\<lambda>r. if entry_id r = j
                              then spec_rows w (spec_decision w (chat_update w (chatCalls mgr) a b)) r
                              else [r]) st)"
proof (cases "spec_decision w (chat_update w (chatCalls mgr) a b)")
  case Ignore
  with callUpdateLlm_spec_decision [where w = w and mgr = mgr and a = a and b = b] assms
  have "st' = st"
    by (auto simp: apply_action_def split: if_splits)
  then show ?thesis
    by (simp add: Ignore spec_rows_def cong: if_cong)
next
  case Delete
  with callUpdateLlm_spec_decision [where w = w and mgr = mgr and a = a and b = b] assms show ?thesis
    by (simp add: apply_action_def spec_rows_def delete_rows cong: if_cong)
next
  case (Update m)
  with callUpdateLlm_spec_decision [where w = w and mgr = mgr and a = a and b = b] assms show ?thesis
    by (simp add: apply_action_def spec_rows_def memory_text_def update_memory_rows
        cong: if_cong)
next
  case (UpdateOther v)
  with callUpdateLlm_spec_decision [where w = w and mgr = mgr and a = a and b = b] assms show ?thesis
    by (auto simp: apply_action_def spec_rows_def update_memory_rows split: option.splits
        cong: if_cong)
qed

text \<open>
  The loop of phase 2 over the targets \<open>es\<close>: what it leaves of every row of the table.
\<close>

lemma offline_loop_table:
  "distinct (map entry_id es) \<Longrightarrow> offline_loop w thr all es s = (Inr u, s') \<Longrightarrow>
   vectorStore s'
     = concat (map (\<lambda>r. case find (\<lambda>e. entry_id e = entry_id r) es of
                  None \<Rightarrow> [r]
                | Some e \<Rightarrow>
                    if has_sources thr all e
                    then spec_rows w
                           (spec_decision w
                              (chat_update w (chatCalls (llmManager s) + call_number thr all es e)
                                 (memory e) (map memory (candidateSources thr all e)))) r
                    else [r]) (vectorStore s))"
proof (induction es arbitrary: s)
  case Nil
  then show ?case by simp
next
  case (Cons e es)
  have dist: "distinct (map entry_id es)" and fresh: "\<forall>x \<in> set es. entry_id x \<noteq> entry_id e"
    using Cons.prems(1) by (auto simp: image_iff)
  have none: "find (\<lambda>x. entry_id x = entry_id e) es = None"
    using fresh by (auto simp: find_None_iff)
  have later: "call_number thr all (e # es) e'
                 = (if has_sources thr all e then 1 else 0) + call_number thr all es e'"
    if "find (\<lambda>x. entry_id x = i) es = Some e'" "i \<noteq> entry_id e" for e' i
  proof -
    from that(1) have "entry_id e' = i" by (auto simp: find_Some_iff)
    with that(2) show ?thesis by (simp add: call_number_def)
  qed
  show ?case
  proof (cases "has_sources thr all e")
    case False
    with Cons.prems(2) have loop: "offline_loop w thr all es s = (Inr u, s')"
      by (simp add: has_sources_def)
    show ?thesis
      unfolding Cons.IH [OF dist loop]
    proof (rule concat_map_cong)
      fix r assume "r \<in> set (vectorStore s)"
      show "(case find (\<lambda>e. entry_id e = entry_id r) es of
               None \<Rightarrow> [r]
             | Some e \<Rightarrow>
                 if has_sources thr all e
                 then spec_rows w
                        (spec_decision w
                           (chat_update w (chatCalls (llmManager s) + call_number thr all es e)
                              (memory e) (map memory (candidateSources thr all e)))) r
                 else [r])
          = (case find (\<lambda>x. entry_id x = entry_id r) (e # es) of
               None \<Rightarrow> [r]
             | Some x \<Rightarrow>
                 if has_sources thr all x
                 then spec_rows w
                        (spec_decision w
                           (chat_update w
                              (chatCalls (llmManager s) + call_number thr all (e # es) x)
                              (memory x) (map memory (candidateSources thr all x)))) r
                 else [r])"
      proof (cases "entry_id e = entry_id r")
        case True
        with none False show ?thesis by simp
      next
        case ne: False
        then show ?thesis
          using False later [of "entry_id r"] by (auto split: option.splits)
      qed
    qed
  next
    case True
    let ?a = "memory e" and ?b = "map memory (candidateSources thr all e)"
    let ?d = "fst (callUpdateLlm w ?a ?b (llmManager s))"
    let ?mgr = "(llmManager s)\<lparr>chatCalls := chatCalls (llmManager s) + 1\<rparr>"
    have call: "callUpdateLlm w ?a ?b (llmManager s) = (?d, ?mgr)"
      using callUpdateLlm_counts [of w ?a ?b "llmManager s"] by (simp add: prod_eq_iff)
    let ?s1 = "s\<lparr>llmManager := ?mgr, tokenStats_update := track (ur_usage ?d) (tokenStats_update s)\<rparr>"
    from Cons.prems(2) True call obtain st where
      act: "apply_action w ?d (entry_id e) (vectorStore s) = (Inr (), st)"
      and loop: "offline_loop w thr all es (?s1\<lparr>vectorStore := st\<rparr>) = (Inr u, s')"
      by (auto simp: has_sources_def Let_def split: prod.splits sum.splits)
    let ?d0 = "spec_decision w (chat_update w (chatCalls (llmManager s)) ?a ?b)"
    let ?H = "\<lambda>r. if entry_id r = entry_id e then spec_rows w ?d0 r else [r]"
    let ?G = "\<lambda>r. case find (\<lambda>e. entry_id e = entry_id r) es of
                  None \<Rightarrow> [r]
                | Some e \<Rightarrow>
                    if has_sources thr all e
                    then spec_rows w
                           (spec_decision w
                              (chat_update w
                                 (chatCalls (llmManager (?s1\<lparr>vectorStore := st\<rparr>))
                                    + call_number thr all es e)
                                 (memory e) (map memory (candidateSources thr all e)))) r
                    else [r]"
    have st: "st = concat (map ?H (vectorStore s))"
      by (rule apply_action_decided [OF act])
    have "vectorStore s' = concat (map ?G (vectorStore (?s1\<lparr>vectorStore := st\<rparr>)))"
      by (rule Cons.IH [OF dist loop])
    also have "\<dots> = concat (map (\<lambda>r. concat (map ?G (?H r))) (vectorStore s))"
      by (simp add: st concat_map_concat)
    also have "\<dots> = concat (map (\<lambda>r. case find (\<lambda>x. entry_id x = entry_id r) (e # es) of
               None \<Rightarrow> [r]
             | Some x \<Rightarrow>
                 if has_sources thr all x
                 then spec_rows w
                        (spec_decision w
                           (chat_update w
                              (chatCalls (llmManager s) + call_number thr all (e # es) x)
                              (memory x) (map memory (candidateSources thr all x)))) r
                 else [r]) (vectorStore s))"
    proof (rule concat_map_cong)
      fix r assume "r \<in> set (vectorStore s)"
      show "concat (map ?G (?H r))
          = (case find (\<lambda>x. entry_id x = entry_id r) (e # es) of
               None \<Rightarrow> [r]
             | Some x \<Rightarrow>
                 if has_sources thr all x
                 then spec_rows w
                        (spec_decision w
                           (chat_update w
                              (chatCalls (llmManager s) + call_number thr all (e # es) x)
                              (memory x) (map memory (candidateSources thr all x)))) r
                 else [r])"
      proof (cases "entry_id e = entry_id r")
        case same: True
        have "?G r' = [r']" if "r' \<in> set (spec_rows w ?d0 r)" for r'
          using spec_rows_id [OF that] same none by simp
        then have "concat (map ?G (spec_rows w ?d0 r)) = concat (map (\<lambda>x. [x]) (spec_rows w ?d0 r))"
          by (intro concat_map_cong) simp
        with same True show ?thesis
          by (simp add: call_number_def)
      next
        case ne: False
        then show ?thesis
          using True later [of "entry_id r"] by (auto split: option.splits)
      qed
    qed
    finally show ?thesis .
  qed
qed

lemma distinct_find_key:
  "distinct (map f xs) \<Longrightarrow> x \<in> set xs \<Longrightarrow> find (\<lambda>y. f y = f x) xs = Some x"
proof (induction xs)
  case Nil
  then show ?case by simp
next
  case (Cons a xs)
  then show ?case by (cases "a = x") (auto simp: image_iff)
qed

text \<open>
  The entries that phase 2 reads are the rows but for their embeddings, which it does
  not use: the sources, the number of the request and the memories sent are those of
  the rows.
\<close>

lemma candidateSources_read:
  "entry_id e' = entry_id e \<Longrightarrow>
     candidateSources thr (getAll b st) e' = map (\<lambda>r. rowToMemoryEntry r b) (candidateSources thr st e)"
  by (simp add: candidateSources_def getAll_def filter_map o_def read_fields)

lemma has_sources_read:
  "entry_id e' = entry_id e \<Longrightarrow> has_sources thr (getAll b st) e' = has_sources thr st e"
  by (simp add: has_sources_def candidateSources_read [of e' e])

lemma call_number_read:
  "entry_id t' = entry_id t \<Longrightarrow>
     call_number thr (getAll b st) (getAll b xs) t' = call_number thr st xs t"
proof -
  assume eq: "entry_id t' = entry_id t"
  have src: "has_sources thr (getAll b st) (rowToMemoryEntry x b) = has_sources thr st x" for x
    by (rule has_sources_read) (simp add: read_fields)
  show ?thesis
    by (simp add: call_number_def getAll_def [of b xs] takeWhile_map filter_map o_def
        read_fields src eq)
qed

lemma find_read:
  "distinct (map entry_id st) \<Longrightarrow> r \<in> set st \<Longrightarrow>
     find (\<lambda>e. entry_id e = entry_id r) (getAll b st) = Some (rowToMemoryEntry r b)"
proof -
  assume d: "distinct (map entry_id st)" and r: "r \<in> set st"
  have "distinct (map entry_id (getAll b st))"
    using d by (simp add: getAll_ids)
  moreover have "rowToMemoryEntry r b \<in> set (getAll b st)"
    using r by (simp add: getAll_def)
  ultimately have "find (\<lambda>y. entry_id y = entry_id (rowToMemoryEntry r b)) (getAll b st)
                     = Some (rowToMemoryEntry r b)"
    by (rule distinct_find_key)
  then show ?thesis by (simp add: read_fields)
qed

lemmas world_eval = sample_world_def update_reply_text_def quoted_def sample_usage_def

lemmas phase2_eval = offlineUpdateAllEntries_def getAll_def rowToMemoryEntry_def
  blobToEmbedding_def
  candidateSources_def callUpdateLlm_def apply_action_def memory_text_def track_def
  zeroCounters_def new_OpenRouterEmbedder_def new_MessageNormalizer_def queued_store_def

text \<open>
  C3 (decisions of phase 2). Let the ids of the table be distinct, as its primary key
  makes them, and let the run of \<open>offlineUpdateAllEntries\<close> complete. The table it leaves
  is the table it found, row by row in place: a record that no queue cites at or above
  the threshold is as it was; a record \<open>t\<close> that some queue cites is as it was if the
  reply to the request for \<open>t\<close> carries the decision to ignore (the action \<open>ignore\<close>, an
  unknown action, no action, a reply that does not parse, a request that fails), is
  gone if it carries \<open>delete\<close>, and is \<open>t\<close> with \<open>memory\<close> replaced by \<open>new_memory\<close>, and
  nothing else changed, if it carries \<open>update\<close> with a non-empty string \<open>new_memory\<close>.
  The reply is the one that the chat endpoint gives; \<open>spec_decision\<close> reads the decision
  off its text.
\<close>

theorem offline_update_applies_decision:
  assumes "distinct (map entry_id (vectorStore s))"
    and "offlineUpdateAllEntries w scoreThreshold s = (Inr (), s')"
  shows "vectorStore s'
     = concat (map (\<lambda>t. if candidateSources scoreThreshold (vectorStore s) t = [] then [t]
                        else (case spec_decision w (reply_for w scoreThreshold s t) of
                                Ignore \<Rightarrow> [t]
                              | Delete \<Rightarrow> []
                              | Update m \<Rightarrow> [t\<lparr>memory := m\<rparr>]
                              | UpdateOther v \<Rightarrow> [t\<lparr>memory := the (bind_text w v)\<rparr>]))
                (vectorStore s))"
proof (cases "vectorStore s = []")
  case True
  with assms(2) show ?thesis
    by (auto simp: offlineUpdateAllEntries_def getAll_empty)
next
  case False
  let ?st = "vectorStore s"
  let ?all = "getAll True ?st"
  from False assms(2) have loop: "offline_loop w scoreThreshold ?all ?all s = (Inr (), s')"
    by (simp add: offlineUpdateAllEntries_def getAll_empty Let_def)
  have dist: "distinct (map entry_id ?all)"
    using assms(1) by (simp add: getAll_ids)
  show ?thesis
    unfolding offline_loop_table [OF dist loop]
  proof (rule concat_map_cong)
    fix t assume t: "t \<in> set ?st"
    let ?e = "rowToMemoryEntry t True"
    have id: "entry_id ?e = entry_id t" by (simp add: read_fields)
    have f: "find (\<lambda>e. entry_id e = entry_id t) ?all = Some ?e"
      by (rule find_read [OF assms(1) t])
    have src: "has_sources scoreThreshold ?all ?e = (candidateSources scoreThreshold ?st t \<noteq> [])"
      using has_sources_read [OF id, of scoreThreshold True ?st] by (simp add: has_sources_def)
    have reply: "chat_update w
                   (chatCalls (llmManager s) + call_number scoreThreshold ?all ?all ?e)
                   (memory ?e) (map memory (candidateSources scoreThreshold ?all ?e))
                 = reply_for w scoreThreshold s t"
      by (simp add: reply_for_def call_number_read [OF id] candidateSources_read [OF id]
          read_fields o_def)
    show "(case find (\<lambda>e. entry_id e = entry_id t) ?all of
             None \<Rightarrow> [t]
           | Some e \<Rightarrow>
               if has_sources scoreThreshold ?all e
               then spec_rows w
                      (spec_decision w
                         (chat_update w
                            (chatCalls (llmManager s) + call_number scoreThreshold ?all ?all e)
                            (memory e) (map memory (candidateSources scoreThreshold ?all e)))) t
               else [t])
        = (if candidateSources scoreThreshold ?st t = [] then [t]
           else (case spec_decision w (reply_for w scoreThreshold s t) of
                   Ignore \<Rightarrow> [t]
                 | Delete \<Rightarrow> []
                 | Update m \<Rightarrow> [t\<lparr>memory := m\<rparr>]
                 | UpdateOther v \<Rightarrow> [t\<lparr>memory := the (bind_text w v)\<rparr>]))"
      by (simp add: f src reply spec_rows_def)
  qed
qed

theorem offline_update_applies_decision_witness:
  "distinct (map entry_id (vectorStore (engine_with cited_store)))
   \<and> fst (offlineUpdateAllEntries deciding_world 0.9 (engine_with cited_store)) = Inr ()
   \<and> spec_decision deciding_world
        (reply_for deciding_world 0.9 (engine_with cited_store)
           (sample_entry ''a'' 100 ''likes tea'' [1, 0])) = Delete
   \<and> spec_decision deciding_world
        (reply_for deciding_world 0.9 (engine_with cited_store)
           (sample_entry ''b'' 200 ''likes green tea'' [1, 0])) = Update ''merged''
   \<and> reply_for deciding_world 0.9 (engine_with cited_store)
        (sample_entry ''c'' 300 ''drinks tea daily'' [1, 0])
        = Some (merge_reply_text, sample_usage)
   \<and> spec_decision deciding_world
        (reply_for deciding_world 0.9 (engine_with cited_store)
           (sample_entry ''c'' 300 ''drinks tea daily'' [1, 0])) = Ignore
   \<and> reply_for deciding_world 0.9 (engine_with cited_store)
        (sample_entry ''d'' 400 ''owns a teapot'' [1, 0])
        = Some (''no decision'', sample_usage)
   \<and> spec_decision deciding_world
        (reply_for deciding_world 0.9 (engine_with cited_store)
           (sample_entry ''d'' 400 ''owns a teapot'' [1, 0])) = Ignore
   \<and> candidateSources 0.9 cited_store cited_e = []
   \<and> vectorStore (snd (offlineUpdateAllEntries deciding_world 0.9 (engine_with cited_store)))
       = [(sample_entry ''b'' 200 ''likes green tea'' [1, 0])\<lparr>memory := ''merged''\<rparr>,
          sample_entry ''c'' 300 ''drinks tea daily'' [1, 0],
          sample_entry ''d'' 400 ''owns a teapot'' [1, 0],
          cited_e]"
proof -
  let ?s = "engine_with cited_store"
  let ?w = "deciding_world"
  let ?a = "sample_entry ''a'' 100 ''likes tea'' [1, 0]"
  let ?b = "sample_entry ''b'' 200 ''likes green tea'' [1, 0]"
  let ?c = "sample_entry ''c'' 300 ''drinks tea daily'' [1, 0]"
  let ?d = "sample_entry ''d'' 400 ''owns a teapot'' [1, 0]"
  let ?F = "\<lambda>t. if candidateSources 0.9 (vectorStore ?s) t = [] then [t]
                 else (case spec_decision ?w (reply_for ?w 0.9 ?s t) of
                         Ignore \<Rightarrow> [t]
                       | Delete \<Rightarrow> []
                       | Update m \<Rightarrow> [t\<lparr>memory := m\<rparr>]
                       | UpdateOther v \<Rightarrow> [t\<lparr>memory := the (bind_text ?w v)\<rparr>])"
  have st: "vectorStore ?s = cited_store"
    by (simp add: engine_eval)
  have h1: "distinct (map entry_id (vectorStore ?s))"
    unfolding st by (simp add: cited_store_def cited_e_def sample_entry_def)
  have src: "candidateSources 0.9 cited_store ?a \<noteq> []"
    "candidateSources 0.9 cited_store ?b \<noteq> []"
    "candidateSources 0.9 cited_store ?c \<noteq> []"
    "candidateSources 0.9 cited_store ?d \<noteq> []"
    "candidateSources 0.9 cited_store cited_e = []"
    by (simp_all add: cited_store_def cited_e_def candidateSources_def sample_entry_def)
  have r0: "reply_for ?w 0.9 ?s ?a = Some (delete_reply_text, sample_usage)"
    and r1: "reply_for ?w 0.9 ?s ?b = Some (update_reply_text, sample_usage)"
    and r2: "reply_for ?w 0.9 ?s ?c = Some (merge_reply_text, sample_usage)"
    and r3: "reply_for ?w 0.9 ?s ?d = Some (''no decision'', sample_usage)"
    by (simp_all add: reply_for_def call_number_def has_sources_def st engine_eval
        deciding_world_def cited_store_def cited_e_def candidateSources_def sample_entry_def)
  have d0: "spec_decision ?w (reply_for ?w 0.9 ?s ?a) = Delete"
    and d1: "spec_decision ?w (reply_for ?w 0.9 ?s ?b) = Update ''merged''"
    and d2: "spec_decision ?w (reply_for ?w 0.9 ?s ?c) = Ignore"
    and d3: "spec_decision ?w (reply_for ?w 0.9 ?s ?d) = Ignore"
    unfolding r0 r1 r2 r3
    by (simp_all add: spec_decision_def deciding_world_def delete_reply_text_def
        merge_reply_text_def update_reply_text_def quoted_def)
  have h2: "fst (offlineUpdateAllEntries ?w 0.9 ?s) = Inr ()"
    by (simp add: engine_eval phase2_eval deciding_world_def delete_reply_text_def
        merge_reply_text_def world_eval cited_store_def cited_e_def store_eval Let_def
        ignore_result_def)
  then have run: "offlineUpdateAllEntries ?w 0.9 ?s = (Inr (), snd (offlineUpdateAllEntries ?w 0.9 ?s))"
    by (simp add: prod_eq_iff)
  have "vectorStore (snd (offlineUpdateAllEntries ?w 0.9 ?s)) = concat (map ?F (vectorStore ?s))"
    by (rule offline_update_applies_decision [OF h1 run])
  also have "\<dots> = ?F ?a @ ?F ?b @ ?F ?c @ ?F ?d @ ?F cited_e"
    unfolding st by (simp add: cited_store_def)
  also have "\<dots> = [?b\<lparr>memory := ''merged''\<rparr>, ?c, ?d, cited_e]"
    unfolding st by (simp add: src d0 d1 d2 d3)
  finally have "vectorStore (snd (offlineUpdateAllEntries ?w 0.9 ?s))
       = [?b\<lparr>memory := ''merged''\<rparr>, ?c, ?d, cited_e]" .
  with h1 h2 d0 d1 d2 d3 r2 r3 src(5) show ?thesis
    by simp
qed

text \<open>
  C7 (frame of an update action). One round of the loop of phase 2, for a target with
  sources whose decision is \<open>update\<close> with a non-empty string: the round completes, the
  embedder is not used, the table keeps its rows in place, every row under another id is
  unchanged, and a row under the target's id differs from the old one in \<open>memory\<close> only.
\<close>

theorem update_action_changes_memory_only:
  assumes "candidateSources scoreThreshold allEntries t \<noteq> []"
    and "fst (callUpdateLlm w (memory t)
                (map memory (candidateSources scoreThreshold allEntries t)) (llmManager s)) = d"
    and "action d = JStr ''update''"
    and "newMemory d = Some (JStr m)"
    and "m \<noteq> []"
  shows "\<exists>s'. offline_loop w scoreThreshold allEntries [t] s = (Inr (), s')
           \<and> embedder s' = embedder s
           \<and> length (vectorStore s') = length (vectorStore s)
           \<and> (\<forall>k < length (vectorStore s).
                 (entry_id (vectorStore s ! k) \<noteq> entry_id t
                    \<longrightarrow> vectorStore s' ! k = vectorStore s ! k)
               \<and> (entry_id (vectorStore s ! k) = entry_id t
                    \<longrightarrow> vectorStore s' ! k = (vectorStore s ! k)\<lparr>memory := m\<rparr>
                      \<and> embedding (vectorStore s' ! k) = embedding (vectorStore s ! k)
                      \<and> originalMemory (vectorStore s' ! k) = originalMemory (vectorStore s ! k)
                      \<and> timeStamp (vectorStore s' ! k) = timeStamp (vectorStore s ! k)
                      \<and> floatTimeStamp (vectorStore s' ! k) = floatTimeStamp (vectorStore s ! k)
                      \<and> weekday (vectorStore s' ! k) = weekday (vectorStore s ! k)
                      \<and> speakerId (vectorStore s' ! k) = speakerId (vectorStore s ! k)
                      \<and> speakerName (vectorStore s' ! k) = speakerName (vectorStore s ! k)
                      \<and> hitTime (vectorStore s' ! k) = hitTime (vectorStore s ! k)
                      \<and> updateQueue (vectorStore s' ! k) = updateQueue (vectorStore s ! k)))"
proof -
  obtain mgr where call: "callUpdateLlm w (memory t)
      (map memory (candidateSources scoreThreshold allEntries t)) (llmManager s) = (d, mgr)"
    using assms(2) by (metis prod.collapse)
  let ?st = "map (\<lambda>r. if entry_id r = entry_id t then r\<lparr>memory := m\<rparr> else r) (vectorStore s)"
  let ?s' = "s\<lparr>llmManager := mgr,
               tokenStats_update := track (ur_usage d) (tokenStats_update s),
               vectorStore := ?st\<rparr>"
  have act: "apply_action w d (entry_id t) (vectorStore s) = (Inr (), ?st)"
    using assms(3,4,5) by (simp add: apply_action_def memory_text_def update_memory_map)
  have run: "offline_loop w scoreThreshold allEntries [t] s = (Inr (), ?s')"
    by (simp add: Let_def assms(1) call act)
  show ?thesis
  proof (intro exI [of _ ?s'] conjI)
    show "offline_loop w scoreThreshold allEntries [t] s = (Inr (), ?s')" by (rule run)
  qed simp_all
qed

theorem update_action_changes_memory_only_witness:
  "candidateSources 0.9 (getAll True queued_store) (sample_entry ''a'' 100 ''likes tea'' []) \<noteq> []
   \<and> action (fst (callUpdateLlm sample_world ''likes tea''
                (map memory (candidateSources 0.9 (getAll True queued_store)
                               (sample_entry ''a'' 100 ''likes tea'' [])))
                \<lparr> chatCalls = 0 \<rparr>)) = JStr ''update''
   \<and> newMemory (fst (callUpdateLlm sample_world ''likes tea''
                (map memory (candidateSources 0.9 (getAll True queued_store)
                               (sample_entry ''a'' 100 ''likes tea'' [])))
                \<lparr> chatCalls = 0 \<rparr>)) = Some (JStr ''merged'')
   \<and> (\<exists>s'. offline_loop sample_world 0.9 (getAll True queued_store)
              [sample_entry ''a'' 100 ''likes tea'' []] (engine_with queued_store)
            = (Inr (), s')
          \<and> embedder s' = embedder (engine_with queued_store)
          \<and> vectorStore s' ! 0 = (sample_entry ''a'' 100 ''likes tea'' [1, 0])\<lparr>memory := ''merged''\<rparr>
          \<and> embedding (vectorStore s' ! 0) = Some [1, 0]
          \<and> originalMemory (vectorStore s' ! 0) = ''likes tea''
          \<and> vectorStore s' ! 1 = queued_store ! 1)"
proof -
  let ?t = "sample_entry ''a'' 100 ''likes tea'' []"
  let ?all = "getAll True queued_store"
  let ?s = "engine_with queued_store"
  let ?d = "fst (callUpdateLlm sample_world (memory ?t)
                  (map memory (candidateSources 0.9 ?all ?t)) (llmManager ?s))"
  have h1: "candidateSources 0.9 ?all ?t \<noteq> []"
    by (simp add: queued_store_def candidateSources_def sample_entry_def getAll_def
        rowToMemoryEntry_def)
  have h3: "action ?d = JStr ''update''"
    by (simp add: phase2_eval world_eval engine_eval sample_entry_def)
  have h4: "newMemory ?d = Some (JStr ''merged'')"
    by (simp add: phase2_eval world_eval engine_eval sample_entry_def)
  have h5: "''merged'' \<noteq> []" by simp
  have m: "memory ?t = ''likes tea''" "llmManager ?s = \<lparr> chatCalls = 0 \<rparr>"
    "vectorStore ?s = queued_store"
    by (simp_all add: sample_entry_def engine_eval)
  from update_action_changes_memory_only [OF h1 refl h3 h4 h5]
  obtain s' where s': "offline_loop sample_world 0.9 ?all [?t] ?s = (Inr (), s')"
    "embedder s' = embedder ?s"
    "length (vectorStore s') = length (vectorStore ?s)"
    "\<forall>k < length (vectorStore ?s).
       (entry_id (vectorStore ?s ! k) \<noteq> entry_id ?t \<longrightarrow> vectorStore s' ! k = vectorStore ?s ! k)
     \<and> (entry_id (vectorStore ?s ! k) = entry_id ?t
          \<longrightarrow> vectorStore s' ! k = (vectorStore ?s ! k)\<lparr>memory := ''merged''\<rparr>
            \<and> embedding (vectorStore s' ! k) = embedding (vectorStore ?s ! k)
            \<and> originalMemory (vectorStore s' ! k) = originalMemory (vectorStore ?s ! k))"
    by blast
  from s'(4) [THEN spec, of 0] have "vectorStore s' ! 0
        = (sample_entry ''a'' 100 ''likes tea'' [1, 0])\<lparr>memory := ''merged''\<rparr>
      \<and> embedding (vectorStore s' ! 0) = Some [1, 0]
      \<and> originalMemory (vectorStore s' ! 0) = ''likes tea''"
    by (simp add: engine_eval queued_store_def sample_entry_def)
  moreover from s'(4) [THEN spec, of 1] have "vectorStore s' ! 1 = queued_store ! 1"
    by (simp add: engine_eval queued_store_def sample_entry_def)
  ultimately show ?thesis
    using s'(1,2) h1 h3 h4 m by auto
qed

section \<open>Write-once origin\<close>

lemma origins_update: "origins (update i u emb st) = origins st"
  by (induction st) (auto simp: origins_def update_def setClauses_def)

lemma origins_delete: "origins (delete i st) = filter (\<lambda>p. fst p \<noteq> i) (origins st)"
  by (induction st) (auto simp: origins_def delete_def)

lemma origins_insert:
  "origins (insert_entry e emb st)
     = filter (\<lambda>p. fst p \<noteq> entry_id e) (origins st) @ [(entry_id e, originalMemory e)]"
  by (induction st) (auto simp: origins_def insert_entry_def)

lemma origins_queue_loop:
  "queue_loop topK keepTopN es st = (r, st') \<Longrightarrow> origins st' = origins st"
proof (induction es arbitrary: st)
  case Nil
  then show ?case by simp
next
  case (Cons e es)
  then show ?case
    by (auto simp: origins_update split: option.splits sum.splits)
qed

lemma origins_construct:
  "constructUpdateQueueAllEntries topK keepTopN s = (r, s') \<Longrightarrow>
     origins (vectorStore s') = origins (vectorStore s)"
  by (auto simp: constructUpdateQueueAllEntries_def Let_def origins_queue_loop
      split: if_splits prod.splits)

lemma origins_apply_action:
  "apply_action w d i st = (r, st') \<Longrightarrow> set (origins st') \<subseteq> set (origins st)"
  by (auto simp: apply_action_def origins_update origins_delete split: if_splits option.splits)

lemma origins_offline_loop:
  "offline_loop w thr all es s = (r, s') \<Longrightarrow>
     set (origins (vectorStore s')) \<subseteq> set (origins (vectorStore s))"
proof (induction es arbitrary: s)
  case Nil
  then show ?case by simp
next
  case (Cons e es)
  show ?case
  proof (cases "candidateSources thr all e = []")
    case True
    with Cons show ?thesis by simp
  next
    case False
    obtain d mgr where call: "callUpdateLlm w (memory e) (map memory (candidateSources thr all e)) (llmManager s) = (d, mgr)"
      by (cases "callUpdateLlm w (memory e) (map memory (candidateSources thr all e)) (llmManager s)")
    obtain ra st where act: "apply_action w d (entry_id e) (vectorStore s) = (ra, st)"
      by (cases "apply_action w d (entry_id e) (vectorStore s)")
    note sub = origins_apply_action [OF act]
    show ?thesis
    proof (cases ra)
      case (Inl err)
      with Cons.prems False call act sub show ?thesis
        by (auto simp: Let_def)
    next
      case (Inr u)
      let ?s1 = "s\<lparr>llmManager := mgr, tokenStats_update := track (ur_usage d) (tokenStats_update s),
                   vectorStore := st\<rparr>"
      from Cons.prems False call act Inr have "offline_loop w thr all es ?s1 = (r, s')"
        by (simp add: Let_def)
      from Cons.IH [OF this] sub show ?thesis by auto
    qed
  qed
qed

lemma origins_offline:
  "offlineUpdateAllEntries w thr s = (r, s') \<Longrightarrow>
     set (origins (vectorStore s')) \<subseteq> set (origins (vectorStore s))"
  by (auto simp: offlineUpdateAllEntries_def Let_def split: if_splits dest: origins_offline_loop)

lemma retrieve_store: "retrieve w q k f s = (r, s') \<Longrightarrow> vectorStore s' = vectorStore s"
  by (auto simp: retrieve_def split: prod.splits sum.splits)

text \<open>
  C8 (write-once origin). The claim lists a repeated insert under the same id among the
  operations that never change a record's \<open>originalMemory\<close>. \<open>insert\<close> is
  \<open>INSERT OR REPLACE\<close>: it replaces the row, \<open>originalMemory\<close> included.
\<close>

theorem repeated_insert_replaces_originalMemory:
  "origins (insert_entry (sample_entry ''a'' 100 ''likes tea'' [1, 0]) [1, 0] [])
     = [(''a'', ''likes tea'')]
   \<and> origins (insert_entry (sample_entry ''a'' 100 ''likes coffee'' [1, 0]) [1, 0]
               (insert_entry (sample_entry ''a'' 100 ''likes tea'' [1, 0]) [1, 0] []))
     = [(''a'', ''likes coffee'')]"
  by (simp add: origins_def insert_entry_def sample_entry_def)

text \<open>
  C8 as amended. \<open>update\<close> with any patch and any embedding (also a patch that names
  \<open>originalMemory\<close>), phase 1, phase 2 and retrieval never change the \<open>originalMemory\<close> of
  a record: \<open>update\<close> and phase 1 keep the pairs \<open>(id, originalMemory)\<close> as they are,
  phase 2 only removes pairs, retrieval leaves the table alone, whether or not the
  operation completes. An insert keeps the pairs under the other ids and sets the pair
  under its own id to the \<open>originalMemory\<close> it carries.
\<close>

theorem originalMemory_changed_by_insert_only:
  "origins (update i u emb st) = origins st
   \<and> (constructUpdateQueueAllEntries topK keepTopN s = (ra, sa)
        \<longrightarrow> origins (vectorStore sa) = origins (vectorStore s))
   \<and> (offlineUpdateAllEntries w scoreThreshold s = (rb, sb)
        \<longrightarrow> set (origins (vectorStore sb)) \<subseteq> set (origins (vectorStore s)))
   \<and> (retrieve w query limit filters s = (rc, sc) \<longrightarrow> vectorStore sc = vectorStore s)
   \<and> origins (insert_entry e emb' st)
        = filter (\<lambda>p. fst p \<noteq> entry_id e) (origins st) @ [(entry_id e, originalMemory e)]"
proof (intro conjI impI)
  show "origins (update i u emb st) = origins st"
    by (rule origins_update)
next
  assume "constructUpdateQueueAllEntries topK keepTopN s = (ra, sa)"
  then show "origins (vectorStore sa) = origins (vectorStore s)"
    by (rule origins_construct)
next
  assume "offlineUpdateAllEntries w scoreThreshold s = (rb, sb)"
  then show "set (origins (vectorStore sb)) \<subseteq> set (origins (vectorStore s))"
    by (rule origins_offline)
next
  assume "retrieve w query limit filters s = (rc, sc)"
  then show "vectorStore sc = vectorStore s"
    by (rule retrieve_store)
next
  show "origins (insert_entry e emb' st)
        = filter (\<lambda>p. fst p \<noteq> entry_id e) (origins st) @ [(entry_id e, originalMemory e)]"
    by (rule origins_insert)
qed

theorem originalMemory_changed_by_insert_only_witness:
  "constructUpdateQueueAllEntries 20 10 (engine_with queued_store)
     = (Inr (), engine_with
          [sample_entry ''a'' 100 ''likes tea'' [1, 0],
           (sample_entry ''b'' 200 ''likes green tea'' [1, 0])
             \<lparr>updateQueue := [\<lparr> cand_id = ''a'', cand_score = 0 \<rparr>]\<rparr>])
   \<and> origins [sample_entry ''a'' 100 ''likes tea'' [1, 0],
               (sample_entry ''b'' 200 ''likes green tea'' [1, 0])
                 \<lparr>updateQueue := [\<lparr> cand_id = ''a'', cand_score = 0 \<rparr>]\<rparr>]
       = origins queued_store
   \<and> offlineUpdateAllEntries sample_world 0.9 (engine_with queued_store) = (Inr (), merged_engine)
   \<and> set (origins (vectorStore merged_engine)) \<subseteq> set (origins queued_store)
   \<and> origins (vectorStore merged_engine) = [(''a'', ''likes tea''), (''b'', ''likes green tea'')]
   \<and> fst (retrieve sample_world ''tea'' 5 None (engine_with queued_store))
       = Inl VectorLengthMismatch
   \<and> vectorStore (snd (retrieve sample_world ''tea'' 5 None (engine_with queued_store)))
       = queued_store"
proof -
  let ?s = "engine_with queued_store"
  let ?sa = "engine_with
          [sample_entry ''a'' 100 ''likes tea'' [1, 0],
           (sample_entry ''b'' 200 ''likes green tea'' [1, 0])
             \<lparr>updateQueue := [\<lparr> cand_id = ''a'', cand_score = 0 \<rparr>]\<rparr>]"
  let ?r = "retrieve sample_world ''tea'' 5 None ?s"
  have st: "vectorStore ?s = queued_store"
    by (simp add: engine_eval)
  have sta: "vectorStore ?sa
               = [sample_entry ''a'' 100 ''likes tea'' [1, 0],
                  (sample_entry ''b'' 200 ''likes green tea'' [1, 0])
                    \<lparr>updateQueue := [\<lparr> cand_id = ''a'', cand_score = 0 \<rparr>]\<rparr>]"
    by (simp add: engine_eval)
  have h1: "constructUpdateQueueAllEntries 20 10 ?s = (Inr (), ?sa)"
    by (simp add: engine_eval store_eval queued_store_def)
  have h2: "offlineUpdateAllEntries sample_world 0.9 ?s = (Inr (), merged_engine)"
    by (simp add: engine_eval phase2_eval world_eval store_eval merged_engine_def)
  have h3: "?r = (fst ?r, snd ?r)"
    by simp
  have lines: "fst ?r = Inl VectorLengthMismatch"
    by (simp add: retrieve_def embed_def count_call_def engine_eval store_eval world_eval
        queued_store_def new_OpenRouterEmbedder_def)
  have pairs: "origins (vectorStore merged_engine) = [(''a'', ''likes tea''), (''b'', ''likes green tea'')]"
    by (simp add: origins_def merged_engine_def engine_eval sample_entry_def)
  from originalMemory_changed_by_insert_only
         [where s = ?s and topK = 20 and keepTopN = 10 and ra = "Inr ()" and sa = ?sa
            and w = sample_world and scoreThreshold = "0.9" and rb = "Inr ()" and sb = merged_engine
            and query = "''tea''" and limit = 5 and filters = None and rc = "fst ?r" and sc = "snd ?r"]
       h1 h2 h3
  have "origins (vectorStore ?sa) = origins (vectorStore ?s)"
    and "set (origins (vectorStore merged_engine)) \<subseteq> set (origins (vectorStore ?s))"
    and "vectorStore (snd ?r) = vectorStore ?s"
    by blast+
  with st sta h1 h2 lines pairs show ?thesis by simp
qed

section \<open>The embedder\<close>

lemma embed_hit:
  "cacheEnabled e \<Longrightarrow> cache e text = Some v \<Longrightarrow> embed w text e = (Inr v, e)"
  by (simp add: embed_def)

lemma embed_caches:
  "cacheEnabled e \<Longrightarrow> embed w text e = (Inr v, e1) \<Longrightarrow> cacheEnabled e1 \<and> cache e1 text = Some v"
  by (auto simp: embed_def Let_def split: option.splits list.splits if_splits)

lemma embed_keeps:
  "cacheEnabled e \<Longrightarrow> cache e text = Some v \<Longrightarrow>
     cacheEnabled (snd (embed w text' e)) \<and> cache (snd (embed w text' e)) text = Some v"
  by (auto simp: embed_def Let_def split: option.splits list.splits)

lemma fold_upd_other:
  "text \<notin> set ks \<Longrightarrow>
     fold (\<lambda>(k, emb) c. fun_upd c k (Some emb)) (zip ks vs) c text = c text"
proof (induction ks arbitrary: vs c)
  case Nil
  then show ?case by simp
next
  case (Cons k ks)
  then show ?case by (cases vs) auto
qed

lemma embedBatch_keeps:
  assumes "cacheEnabled e" and "cache e text = Some v"
  shows "cacheEnabled (snd (embedBatch w texts e)) \<and> cache (snd (embedBatch w texts e)) text = Some v"
proof -
  let ?results = "map (\<lambda>t. if cacheEnabled e then cache e t else None) texts"
  let ?idx = "filter (\<lambda>i. ?results ! i = None) [0 ..< length texts]"
  let ?uncached = "map (\<lambda>i. texts ! i) ?idx"
  have "text \<notin> set ?uncached"
    using assms by auto
  then have other: "fold (\<lambda>(k, emb) c. fun_upd c k (Some emb)) (zip ?uncached vs) (cache e) text = Some v" for vs
    using assms(2) by (simp add: fold_upd_other)
  show ?thesis
    using assms other
    by (auto simp: embedBatch_def Let_def split: option.splits)
qed

lemma after_calls_keeps:
  "cacheEnabled e \<Longrightarrow> cache e text = Some v \<Longrightarrow>
     cacheEnabled (after_calls w cs e) \<and> cache (after_calls w cs e) text = Some v"
proof (induction cs arbitrary: e)
  case Nil
  then show ?case by (simp add: after_calls_def)
next
  case (Cons c cs)
  have "cacheEnabled (after_call w c e) \<and> cache (after_call w c e) text = Some v"
    using Cons.prems embed_keeps embedBatch_keeps by (cases c) auto
  with Cons.IH [of "after_call w c e"] show ?case
    by (simp add: after_calls_def)
qed

text \<open>
  C9 (embedding stability). With the cache enabled, once \<open>embed(t)\<close> has returned a vector,
  and after any further calls of \<open>embed\<close> and \<open>embedBatch\<close> (but none of \<open>clearCache\<close>), a
  call of \<open>embed(t)\<close> returns the same vector and leaves the embedder as it was: no request
  is sent, and the call counter of the statistics does not move.
\<close>

theorem embed_again_is_cached:
  assumes "cacheEnabled e"
    and "embed w t e = (Inr v, e1)"
    and "e2 = after_calls w cs e1"
  shows "embed w t e2 = (Inr v, e2)
     \<and> requests (snd (embed w t e2)) = requests e2
     \<and> totalCalls (getStats (snd (embed w t e2))) = totalCalls (getStats e2)"
proof -
  from embed_caches [OF assms(1) assms(2)] have "cacheEnabled e1" "cache e1 t = Some v" by auto
  from after_calls_keeps [OF this] assms(3) have "cacheEnabled e2" "cache e2 t = Some v" by auto
  then have "embed w t e2 = (Inr v, e2)" by (rule embed_hit)
  then show ?thesis by simp
qed

theorem embed_again_is_cached_witness:
  "cacheEnabled (new_OpenRouterEmbedder True)
   \<and> fst (embed sample_world ''x'' (new_OpenRouterEmbedder True)) = Inr [1, 0]
   \<and> totalCalls (getStats (snd (embed sample_world ''x'' (new_OpenRouterEmbedder True)))) = 1
   \<and> embed sample_world ''x''
        (after_calls sample_world [Embed ''y'', EmbedBatch [''x'', ''z'']]
           (snd (embed sample_world ''x'' (new_OpenRouterEmbedder True))))
      = (Inr [1, 0],
         after_calls sample_world [Embed ''y'', EmbedBatch [''x'', ''z'']]
           (snd (embed sample_world ''x'' (new_OpenRouterEmbedder True))))
   \<and> totalCalls (getStats
        (after_calls sample_world [Embed ''y'', EmbedBatch [''x'', ''z'']]
           (snd (embed sample_world ''x'' (new_OpenRouterEmbedder True))))) = 3"
proof -
  let ?e = "new_OpenRouterEmbedder True"
  let ?e1 = "snd (embed sample_world ''x'' ?e)"
  let ?e2 = "after_calls sample_world [Embed ''y'', EmbedBatch [''x'', ''z'']] ?e1"
  have h1: "cacheEnabled ?e"
    by (simp add: new_OpenRouterEmbedder_def)
  have r1: "fst (embed sample_world ''x'' ?e) = Inr [1, 0]"
    by (simp add: embed_def new_OpenRouterEmbedder_def world_eval)
  then have h2: "embed sample_world ''x'' ?e = (Inr [1, 0], ?e1)"
    by (metis prod.collapse)
  have c1: "totalCalls (getStats ?e1) = 1"
    by (simp add: embed_def new_OpenRouterEmbedder_def world_eval getStats_def count_call_def)
  have c2: "totalCalls (getStats ?e2) = 3"
    by (simp add: after_calls_def embed_def embedBatch_def new_OpenRouterEmbedder_def world_eval
        getStats_def count_call_def Let_def)
  from embed_again_is_cached [OF h1 h2 refl] h1 r1 c1 c2 show ?thesis by simp
qed

section \<open>The message normalizer\<close>

lemma normalize_same_marker:
  "\<forall>msg \<in> set msgs. m_timeStamp msg = Some marker \<Longrightarrow> marker \<noteq> [] \<Longrightarrow>
   parseSessionTimestamp w marker = Inr (base, wd) \<Longrightarrow>
   cursor_at nz marker base k \<Longrightarrow> 0 \<le> offsetMs nz \<Longrightarrow> - maxTime \<le> base \<Longrightarrow>
   \<forall>i < k + length msgs. base + offsetMs nz * int i \<le> maxTime \<Longrightarrow>
   \<exists>out nz'. normalizeMessages w msgs nz = (Inr out, nz')
      \<and> map n_timeStamp out = map (\<lambda>i. base + offsetMs nz * int i) [k ..< k + length msgs]
      \<and> cursor_at nz' marker base (k + length msgs) \<and> offsetMs nz' = offsetMs nz"
proof (induction msgs arbitrary: nz k)
  case Nil
  then show ?case by simp
next
  case (Cons msg rest)
  let ?off = "offsetMs nz"
  let ?t = "base + ?off * int k"
  have ts: "m_timeStamp msg = Some marker" using Cons.prems(1) by simp
  from Cons.prems(7) have up: "?t \<le> maxTime" by simp
  have "0 \<le> ?off * int k" using Cons.prems(5) by simp
  with Cons.prems(6) have lo: "- maxTime \<le> ?t" by linarith
  have newDate: "(case lastTimestampMap nz marker of
                    None \<Rightarrow> Some base
                  | Some lastDate \<Rightarrow> new_Date (map_option (\<lambda>t. t + ?off) lastDate)) = Some ?t"
  proof (cases "k = 0")
    case True
    with Cons.prems(4) show ?thesis by (simp add: cursor_at_def)
  next
    case False
    then have "base + ?off * (int k - 1) + ?off = ?t" by (simp add: algebra_simps)
    with False Cons.prems(4) up lo show ?thesis by (simp add: cursor_at_def new_Date_def)
  qed
  let ?nz1 = "nz\<lparr>lastTimestampMap := fun_upd (lastTimestampMap nz) marker (Some (Some ?t))\<rparr>"
  have cur: "cursor_at ?nz1 marker base (Suc k)"
    by (simp add: cursor_at_def)
  have rng: "\<forall>i < Suc k + length rest. base + offsetMs ?nz1 * int i \<le> maxTime"
    using Cons.prems(7) by simp
  from Cons.IH [of ?nz1 "Suc k", OF _ Cons.prems(2) Cons.prems(3) cur _ Cons.prems(6) rng]
    Cons.prems(1) Cons.prems(5)
  obtain out nz' where rec: "normalizeMessages w rest ?nz1 = (Inr out, nz')"
    and times: "map n_timeStamp out = map (\<lambda>i. base + ?off * int i) [Suc k ..< Suc k + length rest]"
    and cur': "cursor_at nz' marker base (Suc k + length rest)"
    and off': "offsetMs nz' = ?off"
    by auto
  have "normalizeMessages w (msg # rest) nz
          = (Inr (\<lparr> n_role = role msg, n_content = content msg, n_timeStamp = ?t,
                    n_speakerId = m_speakerId msg, n_speakerName = m_speakerName msg,
                    sessionTime = marker, n_weekday = wd, sequenceNumber = None \<rparr> # out), nz')"
    using ts Cons.prems(2) Cons.prems(3) newDate rec
    by (simp add: truthy_str_def Let_def)
  moreover have "[k ..< Suc (k + length rest)] = k # [Suc k ..< Suc (k + length rest)]"
    by (rule upt_conv_Cons) simp
  ultimately show ?case using times cur' off' by simp
qed


lemma normalize_batches_same_marker:
  "\<forall>msg \<in> set (concat batches). m_timeStamp msg = Some marker \<Longrightarrow> marker \<noteq> [] \<Longrightarrow>
   parseSessionTimestamp w marker = Inr (base, wd) \<Longrightarrow>
   cursor_at nz marker base k \<Longrightarrow> 0 \<le> offsetMs nz \<Longrightarrow> - maxTime \<le> base \<Longrightarrow>
   \<forall>i < k + length (concat batches). base + offsetMs nz * int i \<le> maxTime \<Longrightarrow>
   \<exists>out nz'. normalize_batches w batches nz = (Inr out, nz')
      \<and> map n_timeStamp out
          = map (\<lambda>i. base + offsetMs nz * int i) [k ..< k + length (concat batches)]
      \<and> cursor_at nz' marker base (k + length (concat batches)) \<and> offsetMs nz' = offsetMs nz"
proof (induction batches arbitrary: nz k)
  case Nil
  then show ?case by simp
next
  case (Cons batch rest)
  let ?a = "length batch" and ?b = "length (concat rest)"
  have m1: "\<forall>msg \<in> set batch. m_timeStamp msg = Some marker"
    and m2: "\<forall>msg \<in> set (concat rest). m_timeStamp msg = Some marker"
    using Cons.prems(1) by auto
  have r1: "\<forall>i < k + ?a. base + offsetMs nz * int i \<le> maxTime"
    using Cons.prems(7) by simp
  from normalize_same_marker [OF m1 Cons.prems(2) Cons.prems(3) Cons.prems(4) Cons.prems(5)
      Cons.prems(6) r1]
  obtain out nz1 where first: "normalizeMessages w batch nz = (Inr out, nz1)"
    and t1: "map n_timeStamp out = map (\<lambda>i. base + offsetMs nz * int i) [k ..< k + ?a]"
    and c1: "cursor_at nz1 marker base (k + ?a)" and o1: "offsetMs nz1 = offsetMs nz"
    by blast
  have r2: "\<forall>i < (k + ?a) + ?b. base + offsetMs nz1 * int i \<le> maxTime"
    using Cons.prems(7) o1 by (simp add: add.assoc)
  have p5: "0 \<le> offsetMs nz1" using Cons.prems(5) o1 by simp
  from Cons.IH [OF m2 Cons.prems(2) Cons.prems(3) c1 p5 Cons.prems(6) r2]
  obtain outs nz2 where second: "normalize_batches w rest nz1 = (Inr outs, nz2)"
    and t2: "map n_timeStamp outs
               = map (\<lambda>i. base + offsetMs nz1 * int i) [k + ?a ..< (k + ?a) + ?b]"
    and c2: "cursor_at nz2 marker base ((k + ?a) + ?b)" and o2: "offsetMs nz2 = offsetMs nz1"
    by blast
  have "[k ..< (k + ?a) + ?b] = [k ..< k + ?a] @ [k + ?a ..< (k + ?a) + ?b]"
    by (rule upt_add_eq_append) simp
  with first second t1 t2 c2 o1 o2 show ?case
    by (simp add: add.assoc)
qed

text \<open>
  Where every message carries the one marker and the instants fit a \<open>Date\<close>, whose range
  ends 8.64e15 ms from the epoch, every call on a fresh normalizer returns, and the
  \<open>i\<close>-th message overall is stamped \<open>base + 500 * i\<close>.
\<close>

lemma one_marker_calls_return:
  assumes "\<forall>msg \<in> set (concat batches). m_timeStamp msg = Some marker"
    and "marker \<noteq> []"
    and "parseSessionTimestamp w marker = Inr (base, wd)"
    and "- maxTime \<le> base"
    and "base + 500 * (int (length (concat batches)) - 1) \<le> maxTime"
  shows "\<exists>out nz'. normalize_batches w batches new_MessageNormalizer = (Inr out, nz')
           \<and> length out = length (concat batches)
           \<and> (\<forall>i < length out. n_timeStamp (out ! i) = base + 500 * int i)
           \<and> sorted_wrt (<) (map n_timeStamp out)"
proof -
  let ?n = "length (concat batches)"
  let ?nz = "new_MessageNormalizer"
  have off: "offsetMs ?nz = 500" by (simp add: new_MessageNormalizer_def)
  have cur: "cursor_at ?nz marker base 0"
    by (simp add: cursor_at_def new_MessageNormalizer_def)
  have rng: "\<forall>i < 0 + ?n. base + offsetMs ?nz * int i \<le> maxTime"
  proof (intro allI impI)
    fix i assume "i < 0 + ?n"
    then have "int i \<le> int ?n - 1" by simp
    with assms(5) show "base + offsetMs ?nz * int i \<le> maxTime" by (simp add: off)
  qed
  from normalize_batches_same_marker [OF assms(1) assms(2) assms(3) cur _ assms(4) rng]
  obtain out nz' where run: "normalize_batches w batches ?nz = (Inr out, nz')"
    and times: "map n_timeStamp out = map (\<lambda>i. base + 500 * int i) [0 ..< ?n]"
    by (auto simp: off)
  from times have len: "length out = ?n"
    by (metis length_map length_upt minus_nat.diff_0)
  have nth: "n_timeStamp (out ! i) = base + 500 * int i" if "i < length out" for i
  proof -
    from that have "n_timeStamp (out ! i) = map n_timeStamp out ! i" by simp
    also have "\<dots> = base + 500 * int i" using that len by (simp add: times)
    finally show ?thesis .
  qed
  have "sorted_wrt (<) (map (\<lambda>i. base + 500 * int i) [0 ..< ?n])"
    by (simp add: sorted_wrt_map sorted_wrt_iff_nth_less)
  with times have "sorted_wrt (<) (map n_timeStamp out)" by simp
  with run len nth show ?thesis by blast
qed

lemmas normalizer_eval = parseSessionTimestamp_def iso_fallback_def match_here_def match_date_def
  match_weekday_def match_time_def match_seconds_def expect_def is_sep_def is_digit_def
  is_space_def dateTimeStr_def truthy_str_def new_Date_def maxTime_def
  new_MessageNormalizer_def user_msg_def assistant_msg_def

lemma sample_marker_parses:
  "parseSessionTimestamp sample_world ''2024/01/15 (Mon) 10:00'' = Inr (1705312800000, ''Mon'')"
  by code_simp

lemma normalize_cons:
  "normalizeMessages w (msg # rest) nz =
     (case normalizeMessages w [msg] nz of
        (Inl e, nz1) \<Rightarrow> (Inl e, nz1)
      | (Inr enriched, nz1) \<Rightarrow>
          (case normalizeMessages w rest nz1 of
             (Inl e, nz2) \<Rightarrow> (Inl e, nz2)
           | (Inr enrichedList, nz2) \<Rightarrow> (Inr (enriched @ enrichedList), nz2)))"
  by (simp add: Let_def split: sum.splits option.splits prod.splits)










lemma stamped_prefix:
  "\<exists>n nz'. n \<le> length batch
      \<and> normalizeMessages w (take n batch) nz = (Inr (stamped w batch nz), nz')
      \<and> (n = length batch
          \<or> (\<exists>e nz''. normalizeMessages w (take (Suc n) batch) nz = (Inl e, nz'')))"
proof (induction batch arbitrary: nz)
  case Nil
  then show ?case by simp
next
  case (Cons msg rest)
  obtain r nz1 where one: "normalizeMessages w [msg] nz = (r, nz1)"
    by (cases "normalizeMessages w [msg] nz")
  show ?case
  proof (cases r)
    case (Inl e)
    have "normalizeMessages w (take 0 (msg # rest)) nz = (Inr (stamped w (msg # rest) nz), nz)"
      using one Inl by simp
    moreover have "normalizeMessages w (take (Suc 0) (msg # rest)) nz = (Inl e, nz1)"
      using one Inl by simp
    ultimately show ?thesis
      by (intro exI [of _ 0] exI [of _ nz]) (simp del: normalizeMessages.simps stamped.simps)
  next
    case (Inr enriched)
    from Cons.IH [of nz1] obtain n nz' where n: "n \<le> length rest"
      and pre: "normalizeMessages w (take n rest) nz1 = (Inr (stamped w rest nz1), nz')"
      and last: "n = length rest
          \<or> (\<exists>e nz''. normalizeMessages w (take (Suc n) rest) nz1 = (Inl e, nz''))"
      by blast
    have st: "stamped w (msg # rest) nz = enriched @ stamped w rest nz1"
      using one Inr by simp
    have a: "normalizeMessages w (take (Suc n) (msg # rest)) nz
               = (Inr (stamped w (msg # rest) nz), nz')"
      using one Inr pre st
      by (simp add: normalize_cons [of w msg "take n rest" nz]
          del: normalizeMessages.simps stamped.simps)
    have b: "Suc n = length (msg # rest)
          \<or> (\<exists>e nz''. normalizeMessages w (take (Suc (Suc n)) (msg # rest)) nz = (Inl e, nz''))"
      using last one Inr
      by (auto simp: normalize_cons [of w msg "take (Suc n) rest" nz]
          simp del: normalizeMessages.simps)
    from n a b show ?thesis
      by (intro exI [of _ "Suc n"] exI [of _ nz']) (simp del: normalizeMessages.simps stamped.simps)
  qed
qed








lemma parse_unparseable:
  "unparseable w rawTs \<Longrightarrow> parseSessionTimestamp w rawTs = Inl (SessionTimeFormat rawTs)"
  by (auto simp: unparseable_def parseSessionTimestamp_def iso_fallback_def split: option.splits)

lemma parse_fails_iff:
  "(\<exists>e. parseSessionTimestamp w rawTs = Inl e) = unparseable w rawTs"
  by (auto simp: unparseable_def parseSessionTimestamp_def iso_fallback_def split: option.splits)

lemma normalize_rejects:
  "\<exists>msg \<in> set msgs. \<not> truthy_str (m_timeStamp msg)
      \<or> unparseable w (the (m_timeStamp msg)) \<Longrightarrow>
   \<exists>e nz'. normalizeMessages w msgs nz = (Inl e, nz')"
proof (induction msgs arbitrary: nz)
  case Nil
  then show ?case by simp
next
  case (Cons msg rest)
  show ?case
  proof (cases "\<not> truthy_str (m_timeStamp msg) \<or> unparseable w (the (m_timeStamp msg))")
    case True
    then show ?thesis
      by (auto simp: parse_unparseable)
  next
    case False
    with Cons.prems have bad: "\<exists>m \<in> set rest. \<not> truthy_str (m_timeStamp m)
      \<or> unparseable w (the (m_timeStamp m))" by auto
    show ?thesis
    proof (cases "parseSessionTimestamp w (the (m_timeStamp msg))")
      case (Inl e)
      then show ?thesis by simp
    next
      case (Inr p)
      obtain baseDate wd where p: "p = (baseDate, wd)" by (cases p)
      let ?newDate = "case lastTimestampMap nz (the (m_timeStamp msg)) of
                        None \<Rightarrow> Some baseDate
                      | Some lastDate \<Rightarrow> new_Date (map_option (\<lambda>t. t + offsetMs nz) lastDate)"
      let ?nz1 = "nz\<lparr>lastTimestampMap :=
                     fun_upd (lastTimestampMap nz) (the (m_timeStamp msg)) (Some ?newDate)\<rparr>"
      show ?thesis
      proof (cases ?newDate)
        case None
        with Inr p False show ?thesis by (simp add: Let_def)
      next
        case (Some t)
        from Cons.IH [OF bad, of ?nz1] obtain e nz' where
          "normalizeMessages w rest ?nz1 = (Inl e, nz')" by blast
        with Inr p False Some show ?thesis by (simp add: Let_def)
      qed
    qed
  qed
qed

lemma sample_unparseable: "unparseable sample_world ''yesterday''"
  by code_simp

text \<open>
  C6 (a bad message rejects the batch). If some message of the batch has no \<open>timeStamp\<close>
  (absent or empty) or a marker that neither the session grammar nor the ISO fallback
  parses, \<open>addMemory\<close> ends in an error, and the engine is as before except for the
  cursors of the normalizer: the message buffer and the table are unchanged. Whether the
  error is thrown or is the rejection of the promise of the \<open>async\<close> method is not
  told apart here.
\<close>

theorem addMemory_rejects_batch:
  assumes "\<exists>msg \<in> set messages.
             m_timeStamp msg = None \<or> m_timeStamp msg = Some []
             \<or> (\<exists>rawTs. m_timeStamp msg = Some rawTs \<and> unparseable w rawTs)"
  shows "\<exists>e s'. addMemory w messages options s = (Inl e, s')
           \<and> messageBuffer s' = messageBuffer s \<and> vectorStore s' = vectorStore s
           \<and> s' = s\<lparr>normalizer := normalizer s'\<rparr>"
proof -
  from assms obtain msg where msg: "msg \<in> set messages"
    and bad: "m_timeStamp msg = None \<or> m_timeStamp msg = Some []
             \<or> (\<exists>rawTs. m_timeStamp msg = Some rawTs \<and> unparseable w rawTs)"
    by blast
  from bad have "\<not> truthy_str (m_timeStamp msg) \<or> unparseable w (the (m_timeStamp msg))"
    by (auto simp: truthy_str_def)
  with msg have "\<exists>msg \<in> set messages. \<not> truthy_str (m_timeStamp msg)
      \<or> unparseable w (the (m_timeStamp msg))"
    by blast
  from normalize_rejects [OF this, of "normalizer s"] obtain e nz' where
    "normalizeMessages w messages (normalizer s) = (Inl e, nz')" by blast
  then have "addMemory w messages options s = (Inl e, s\<lparr>normalizer := nz'\<rparr>)"
    by (simp add: addMemory_def)
  then show ?thesis by simp
qed

theorem addMemory_rejects_batch_witness:
  "(\<exists>msg \<in> set [user_msg ''hello'', (user_msg ''again'')\<lparr>m_timeStamp := None\<rparr>].
       m_timeStamp msg = None \<or> m_timeStamp msg = Some []
       \<or> (\<exists>rawTs. m_timeStamp msg = Some rawTs \<and> unparseable sample_world rawTs))
   \<and> fst (addMemory sample_world [user_msg ''hello'', (user_msg ''again'')\<lparr>m_timeStamp := None\<rparr>]
            \<lparr> forceExtract = True \<rparr> (engine_with sample_store)) = Inl MissingTimeStamp
   \<and> (\<exists>e s'. addMemory sample_world
                 [user_msg ''hello'', (user_msg ''again'')\<lparr>m_timeStamp := None\<rparr>]
                 \<lparr> forceExtract = True \<rparr> (engine_with sample_store) = (Inl e, s')
          \<and> messageBuffer s' = messageBuffer (engine_with sample_store)
          \<and> vectorStore s' = vectorStore (engine_with sample_store)
          \<and> s' = (engine_with sample_store)\<lparr>normalizer := normalizer s'\<rparr>)"
proof -
  let ?msgs = "[user_msg ''hello'', (user_msg ''again'')\<lparr>m_timeStamp := None\<rparr>]"
  have h: "\<exists>msg \<in> set ?msgs. m_timeStamp msg = None \<or> m_timeStamp msg = Some []
       \<or> (\<exists>rawTs. m_timeStamp msg = Some rawTs \<and> unparseable sample_world rawTs)"
    by simp
  have e: "fst (addMemory sample_world ?msgs \<lparr> forceExtract = True \<rparr> (engine_with sample_store))
             = Inl MissingTimeStamp"
    by (simp add: addMemory_def sample_marker_parses user_msg_def truthy_str_def engine_eval
        new_MessageNormalizer_def Let_def)
  from addMemory_rejects_batch [OF h, of "\<lparr> forceExtract = True \<rparr>" "engine_with sample_store"] h e
  show ?thesis by blast
qed

section \<open>Sequence numbers and the source of a fact\<close>
















end
